theory Spec2Isabelle
  imports Main "HOL-Library.Word" "HOL-Library.Sublist"
begin

text \<open>
  The protocol bridge of the Claude Code proxy, \<open>src/dist/claude-code-proxy.js\<close>: the
  translation of a message history into the agent's NDJSON input, the decoding of the
  agent's output, whole and in chunks, and the life of one agent process. Line numbers
  refer to that file.
\<close>

section \<open>JavaScript strings\<close>

text \<open>
  A JavaScript string is a sequence of UTF-16 code units; \<open>length\<close>, \<open>slice\<close>, \<open>split\<close>
  and \<open>trim\<close> all count code units. A string literal of the program is written
  \<open>str ''...''\<close>.
\<close>

type_synonym jsstring = "16 word list"

definition str :: "string \<Rightarrow> jsstring" where
  "str s = map (\<lambda>c. of_nat (of_char c)) s"

definition LF :: "16 word" where
  "LF = 0x0A"

text \<open>
  The code units that \<open>String.prototype.trim\<close> strips: the WhiteSpace and
  LineTerminator productions of the language.
\<close>

definition isWhiteSpace :: "16 word \<Rightarrow> bool" where
  "isWhiteSpace c \<longleftrightarrow>
     c = 0x09 \<or> c = 0x0A \<or> c = 0x0B \<or> c = 0x0C \<or> c = 0x0D \<or> c = 0x20 \<or> c = 0xA0
   \<or> c = 0x1680 \<or> (0x2000 \<le> c \<and> c \<le> 0x200A) \<or> c = 0x2028 \<or> c = 0x2029
   \<or> c = 0x202F \<or> c = 0x205F \<or> c = 0x3000 \<or> c = 0xFEFF"

definition trim :: "jsstring \<Rightarrow> jsstring" where
  "trim s = rev (dropWhile isWhiteSpace (rev (dropWhile isWhiteSpace s)))"

text \<open>\<open>s.split("\n")\<close>: the pieces between line feeds; never an empty array.\<close>

fun split_LF :: "jsstring \<Rightarrow> jsstring list" where
  "split_LF [] = [[]]"
| "split_LF (c # cs) =
     (if c = LF then [] # split_LF cs
      else (case split_LF cs of l # ls \<Rightarrow> (c # l) # ls | [] \<Rightarrow> [[c]]))"

text \<open>\<open>a.join(sep)\<close> on an array of strings.\<close>

fun join :: "jsstring \<Rightarrow> jsstring list \<Rightarrow> jsstring" where
  "join sep [] = []"
| "join sep [x] = x"
| "join sep (x # y # ys) = x @ sep @ join sep (y # ys)"

section \<open>JavaScript values\<close>

text \<open>
  The values the program handles are the results of \<open>JSON.parse\<close>, plus \<open>undefined\<close>
  (the value of a missing property). A number is kept as the characters of its canonical
  decimal rendering (what \<open>String(n)\<close> gives); the program never computes with one.
  An object is the list of its own properties in the order the language enumerates them,
  each key once.
\<close>

datatype numchar = D0 | D1 | D2 | D3 | D4 | D5 | D6 | D7 | D8 | D9 | Dot | Minus | Plus | Exp

datatype jsnumber = Finite "numchar list" | PosInfinity | NegInfinity

datatype jsvalue =
    JUndefined
  | JNull
  | JBool bool
  | JNumber jsnumber
  | JString jsstring
  | JArray "jsvalue list"
  | JObject "(jsstring \<times> jsvalue) list"

datatype js_error = TypeError

fun nullish :: "jsvalue \<Rightarrow> bool" where
  "nullish JUndefined = True"
| "nullish JNull = True"
| "nullish _ = False"

text \<open>
  \<open>V.k\<close> for the property names the program reads (\<open>type\<close>, \<open>role\<close>, \<open>content\<close>,
  \<open>text\<close>, \<open>message\<close>), none of which a built-in prototype defines: reading a property
  of \<open>undefined\<close> or \<open>null\<close> throws a TypeError, a primitive or an array has no such
  property, an object gives its own property or \<open>undefined\<close>.
\<close>

fun Get :: "jsvalue \<Rightarrow> jsstring \<Rightarrow> js_error + jsvalue" where
  "Get JUndefined k = Inl TypeError"
| "Get JNull k = Inl TypeError"
| "Get (JObject ps) k = Inr (case map_of ps k of None \<Rightarrow> JUndefined | Some v \<Rightarrow> v)"
| "Get _ k = Inr JUndefined"

fun numchar_unit :: "numchar \<Rightarrow> 16 word" where
  "numchar_unit D0 = 0x30" | "numchar_unit D1 = 0x31" | "numchar_unit D2 = 0x32"
| "numchar_unit D3 = 0x33" | "numchar_unit D4 = 0x34" | "numchar_unit D5 = 0x35"
| "numchar_unit D6 = 0x36" | "numchar_unit D7 = 0x37" | "numchar_unit D8 = 0x38"
| "numchar_unit D9 = 0x39" | "numchar_unit Dot = 0x2E" | "numchar_unit Minus = 0x2D"
| "numchar_unit Plus = 0x2B" | "numchar_unit Exp = 0x65"

fun Number_toString :: "jsnumber \<Rightarrow> jsstring" where
  "Number_toString (Finite ds) = map numchar_unit ds"
| "Number_toString PosInfinity = str ''Infinity''"
| "Number_toString NegInfinity = str ''-Infinity''"

text \<open>
  The conversion to a string that \<open>Array.prototype.join\<close> applies to each element
  (\<open>undefined\<close> and \<open>null\<close> elements give the empty string there). An array converts
  by joining its elements with a comma. A plain object converts to \<open>[object Object]\<close>; when
  it has an own property \<open>toString\<close>, which after \<open>JSON.parse\<close> is never callable, the
  conversion finds no method that returns a primitive and throws a TypeError.
\<close>

fun ToString :: "jsvalue \<Rightarrow> js_error + jsstring"
  and Array_join :: "jsstring \<Rightarrow> jsvalue list \<Rightarrow> js_error + jsstring"
where
  "ToString JUndefined = Inr (str ''undefined'')"
| "ToString JNull = Inr (str ''null'')"
| "ToString (JBool b) = Inr (if b then str ''true'' else str ''false'')"
| "ToString (JNumber n) = Inr (Number_toString n)"
| "ToString (JString s) = Inr s"
| "ToString (JArray xs) = Array_join (str '','') xs"
| "ToString (JObject ps) =
     (if str ''toString'' \<in> fst ` set ps then Inl TypeError else Inr (str ''[object Object]''))"
| "Array_join sep [] = Inr []"
| "Array_join sep (x # xs) =
     (case (if nullish x then Inr [] else ToString x) of
        Inl e \<Rightarrow> Inl e
      | Inr s \<Rightarrow>
          (case xs of
             [] \<Rightarrow> Inr s
           | _ # _ \<Rightarrow> (case Array_join sep xs of Inl e \<Rightarrow> Inl e | Inr r \<Rightarrow> Inr (s @ sep @ r))))"

text \<open>
  Exceptions are values: \<open>Inl e\<close> is a thrown \<open>e\<close>. \<open>andThen\<close> sequences two
  computations, \<open>Array_filter\<close> and \<open>Array_map\<close> are the array methods with a callback
  that may throw (the first throwing call ends the whole expression).
\<close>

fun andThen :: "js_error + 'a \<Rightarrow> ('a \<Rightarrow> js_error + 'b) \<Rightarrow> js_error + 'b" where
  "andThen (Inl e) f = Inl e"
| "andThen (Inr x) f = f x"

fun Array_filter :: "('a \<Rightarrow> js_error + bool) \<Rightarrow> 'a list \<Rightarrow> js_error + 'a list" where
  "Array_filter p [] = Inr []"
| "Array_filter p (x # xs) =
     andThen (p x) (\<lambda>keep. andThen (Array_filter p xs) (\<lambda>r. Inr (if keep then x # r else r)))"

fun Array_map :: "('a \<Rightarrow> js_error + 'b) \<Rightarrow> 'a list \<Rightarrow> js_error + 'b list" where
  "Array_map f [] = Inr []"
| "Array_map f (x # xs) = andThen (f x) (\<lambda>y. andThen (Array_map f xs) (\<lambda>r. Inr (y # r)))"

text \<open>\<open>a === b\<close> against a string literal.\<close>

definition is_string :: "jsvalue \<Rightarrow> string \<Rightarrow> bool" where
  "is_string v lit \<longleftrightarrow> v = JString (str lit)"

section \<open>Messages to NDJSON\<close>

text \<open>\<open>normalizedContent\<close> (lines 47-51).\<close>

definition normalizedContent :: "jsvalue \<Rightarrow> jsvalue" where
  "normalizedContent Content =
     (case Content of
        JString s \<Rightarrow> JArray [JObject [(str ''type'', JString (str ''text'')), (str ''text'', Content)]]
      | _ \<Rightarrow> Content)"

text \<open>
  \<open>JSON.stringify\<close> without indentation. A string is quoted code point by code point:
  the short escapes, \<open>\uXXXX\<close> (lower-case hexadecimal) for the other control characters
  and for a surrogate that is not part of a pair, everything else as it is.
\<close>

definition hexdigit :: "16 word \<Rightarrow> 16 word" where
  "hexdigit d = (if d < 10 then 0x30 + d else 0x61 + (d - 10))"

definition UnicodeEscape :: "16 word \<Rightarrow> jsstring" where
  "UnicodeEscape c =
     [0x5C, 0x75, hexdigit (drop_bit 12 c), hexdigit (take_bit 4 (drop_bit 8 c)),
      hexdigit (take_bit 4 (drop_bit 4 c)), hexdigit (take_bit 4 c)]"

definition isLeadingSurrogate :: "16 word \<Rightarrow> bool" where
  "isLeadingSurrogate c \<longleftrightarrow> 0xD800 \<le> c \<and> c \<le> 0xDBFF"

definition isTrailingSurrogate :: "16 word \<Rightarrow> bool" where
  "isTrailingSurrogate c \<longleftrightarrow> 0xDC00 \<le> c \<and> c \<le> 0xDFFF"

definition QuoteUnit :: "16 word \<Rightarrow> jsstring" where
  "QuoteUnit c =
     (if c = 0x08 then [0x5C, 0x62] else if c = 0x09 then [0x5C, 0x74]
      else if c = 0x0A then [0x5C, 0x6E] else if c = 0x0C then [0x5C, 0x66]
      else if c = 0x0D then [0x5C, 0x72] else if c = 0x22 then [0x5C, 0x22]
      else if c = 0x5C then [0x5C, 0x5C]
      else if c < 0x20 \<or> isLeadingSurrogate c \<or> isTrailingSurrogate c then UnicodeEscape c
      else [c])"

fun QuoteUnits :: "jsstring \<Rightarrow> jsstring" where
  "QuoteUnits [] = []"
| "QuoteUnits [c] = QuoteUnit c"
| "QuoteUnits (c # d # cs) =
     (if isLeadingSurrogate c \<and> isTrailingSurrogate d then c # d # QuoteUnits cs
      else QuoteUnit c @ QuoteUnits (d # cs))"

definition QuoteJSONString :: "jsstring \<Rightarrow> jsstring" where
  "QuoteJSONString s = [0x22] @ QuoteUnits s @ [0x22]"

text \<open>
  A property whose value is \<open>undefined\<close> is left out of an object; an \<open>undefined\<close>
  array element is written \<open>null\<close>; a number that is not finite is written \<open>null\<close>.
  \<open>None\<close> is the result \<open>undefined\<close>.
\<close>

fun SerializeJSONProperty :: "jsvalue \<Rightarrow> jsstring option"
  and SerializeJSONElements :: "jsvalue list \<Rightarrow> jsstring list"
  and SerializeJSONMembers :: "(jsstring \<times> jsvalue) list \<Rightarrow> jsstring list"
where
  "SerializeJSONProperty JUndefined = None"
| "SerializeJSONProperty JNull = Some (str ''null'')"
| "SerializeJSONProperty (JBool b) = Some (if b then str ''true'' else str ''false'')"
| "SerializeJSONProperty (JNumber n) =
     Some (case n of Finite ds \<Rightarrow> map numchar_unit ds | _ \<Rightarrow> str ''null'')"
| "SerializeJSONProperty (JString s) = Some (QuoteJSONString s)"
| "SerializeJSONProperty (JArray xs) =
     Some (str ''['' @ join (str '','') (SerializeJSONElements xs) @ str '']'')"
| "SerializeJSONProperty (JObject ps) =
     Some (str ''{'' @ join (str '','') (SerializeJSONMembers ps) @ str ''}'')"
| "SerializeJSONElements [] = []"
| "SerializeJSONElements (x # xs) =
     (case SerializeJSONProperty x of None \<Rightarrow> str ''null'' | Some t \<Rightarrow> t)
       # SerializeJSONElements xs"
| "SerializeJSONMembers [] = []"
| "SerializeJSONMembers (kv # ps) =
     (case SerializeJSONProperty (snd kv) of
        None \<Rightarrow> SerializeJSONMembers ps
      | Some t \<Rightarrow> (QuoteJSONString (fst kv) @ str '':'' @ t) # SerializeJSONMembers ps)"

definition JSON_stringify :: "jsvalue \<Rightarrow> jsstring option" where
  "JSON_stringify v = SerializeJSONProperty v"

text \<open>
  The event built for one message by the first \<open>map\<close> of \<open>MessagesAsNDJSON\<close>
  (lines 56-59).
\<close>

definition AgentEvent :: "jsvalue \<Rightarrow> js_error + jsvalue" where
  "AgentEvent Msg =
     andThen (Get Msg (str ''role'')) (\<lambda>role.
     andThen (Get Msg (str ''content'')) (\<lambda>content.
       Inr (JObject
         [(str ''type'', JString (if is_string role ''user'' then str ''user'' else str ''assistant'')),
          (str ''message'',
             JObject [(str ''role'', role), (str ''content'', normalizedContent content)])])))"

definition not_system :: "jsvalue \<Rightarrow> js_error + bool" where
  "not_system Msg = andThen (Get Msg (str ''role'')) (\<lambda>role. Inr (\<not> is_string role ''system''))"

text \<open>
  The line of one event; \<open>join\<close> writes an \<open>undefined\<close> element as the empty string.
\<close>

definition EventLine :: "jsvalue \<Rightarrow> jsstring" where
  "EventLine Event = (case JSON_stringify Event of None \<Rightarrow> [] | Some t \<Rightarrow> t)"

text \<open>\<open>MessagesAsNDJSON\<close> (lines 53-62), on the elements of the array \<open>Messages\<close>.\<close>

definition MessagesAsNDJSON :: "jsvalue list \<Rightarrow> js_error + jsstring" where
  "MessagesAsNDJSON Messages =
     andThen (Array_filter not_system Messages) (\<lambda>Kept.
     andThen (Array_map AgentEvent Kept) (\<lambda>Events.
       Inr (join [LF] (map EventLine Events) @ [LF])))"

text \<open>\<open>Messages.find(p)\<close>: the first element on which \<open>p\<close> holds, \<open>None\<close> for
  \<open>undefined\<close>; the callback is not run past that element.\<close>

fun Array_find :: "('a \<Rightarrow> js_error + bool) \<Rightarrow> 'a list \<Rightarrow> js_error + 'a option" where
  "Array_find p [] = Inr None"
| "Array_find p (x # xs) = andThen (p x) (\<lambda>found. if found then Inr (Some x) else Array_find p xs)"

definition is_system :: "jsvalue \<Rightarrow> js_error + bool" where
  "is_system Msg = andThen (Get Msg (str ''role'')) (\<lambda>role. Inr (is_string role ''system''))"

definition is_text_block :: "jsvalue \<Rightarrow> js_error + bool" where
  "is_text_block Block = andThen (Get Block (str ''type'')) (\<lambda>t. Inr (is_string t ''text''))"

text \<open>
  \<open>extractedSystemPrompt\<close> (lines 64-76); \<open>Inr None\<close> is the result \<open>undefined\<close>.
  Calling \<open>filter\<close> on a content that is not an array throws a TypeError.
\<close>

definition extractedSystemPrompt :: "jsvalue list \<Rightarrow> js_error + jsstring option" where
  "extractedSystemPrompt Messages =
     andThen (Array_find is_system Messages) (\<lambda>SystemMsg.
       case SystemMsg of
         None \<Rightarrow> Inr None
       | Some Msg \<Rightarrow>
           andThen (Get Msg (str ''content'')) (\<lambda>content.
             case content of
               JString s \<Rightarrow> Inr (Some s)
             | JArray Blocks \<Rightarrow>
                 andThen (Array_filter is_text_block Blocks) (\<lambda>TextBlocks.
                 andThen (Array_map (\<lambda>Block. Get Block (str ''text'')) TextBlocks) (\<lambda>Texts.
                 andThen (Array_join [LF] Texts) (\<lambda>r. Inr (Some r))))
             | _ \<Rightarrow> Inl TypeError))"

section \<open>Decoding the agent's output\<close>

text \<open>\<open>ContentAsString\<close> (lines 81-89).\<close>

definition ContentAsString :: "jsvalue \<Rightarrow> js_error + jsstring" where
  "ContentAsString Content =
     (case Content of
        JString s \<Rightarrow> Inr s
      | JArray Blocks \<Rightarrow>
          andThen (Array_filter is_text_block Blocks) (\<lambda>TextBlocks.
          andThen (Array_map (\<lambda>Block. andThen (Get Block (str ''text''))
                     (\<lambda>t. Inr (if nullish t then JString [] else t))) TextBlocks) (\<lambda>Texts.
            Array_join [] Texts))
      | _ \<Rightarrow> Inl TypeError)"

text \<open>
  \<open>JSON.parse\<close> is the platform's: the decoder takes it as the function \<open>parse\<close>,
  \<open>None\<close> where it throws a SyntaxError.
\<close>

type_synonym parser = "jsstring \<Rightarrow> jsvalue option"

text \<open>
  The test and the text of the \<open>try\<close> block (lines 97-98 and 172-173):
  \<open>Inr (Some Text)\<close> when \<open>Event.type === "assistant"\<close> and
  \<open>Event.message?.content != null\<close>, with \<open>Text = ContentAsString(Event.message.content)\<close>;
  \<open>Inr None\<close> when the test is false; \<open>Inl e\<close> when an exception is thrown.
\<close>

definition AssistantText :: "jsvalue \<Rightarrow> js_error + jsstring option" where
  "AssistantText Event =
     andThen (Get Event (str ''type'')) (\<lambda>type.
       if \<not> is_string type ''assistant'' then Inr None
       else
         andThen (Get Event (str ''message'')) (\<lambda>message.
         andThen (if nullish message then Inr JUndefined else Get message (str ''content''))
           (\<lambda>content.
              if nullish content then Inr None
              else andThen (ContentAsString content) (\<lambda>Text. Inr (Some Text)))))"

text \<open>
  \<open>TextExtractedFromStreamJSON\<close> (lines 91-107). \<open>ContentAsString\<close> returns a string
  whenever it returns, so the test \<open>Text != null\<close> always holds.
\<close>

definition LastAssistantText :: "parser \<Rightarrow> jsstring \<Rightarrow> jsstring \<Rightarrow> jsstring" where
  "LastAssistantText parse LastText Line =
     (case parse Line of
        None \<Rightarrow> LastText
      | Some Event \<Rightarrow>
          (case AssistantText Event of
             Inr (Some Text) \<Rightarrow> Text
           | Inr None \<Rightarrow> LastText
           | Inl e \<Rightarrow> LastText))"

definition TextExtractedFromStreamJSON :: "parser \<Rightarrow> jsstring \<Rightarrow> jsstring" where
  "TextExtractedFromStreamJSON parse Raw =
     foldl (LastAssistantText parse) [] (filter (\<lambda>Line. trim Line \<noteq> []) (split_LF Raw))"

subsection \<open>Buffers\<close>

text \<open>
  A chunk of a pipe is a \<open>Buffer\<close>, a sequence of bytes. \<open>Chunk.toString()\<close> decodes it
  as UTF-8, each chunk on its own: a byte sequence that is not valid UTF-8, also one cut
  off by the end of the chunk, decodes to U+FFFD, one for each maximal ill-formed part.
  \<open>utf8_decode cp needed lo hi bs\<close> is the decoder in the state "\<open>needed\<close> continuation
  bytes to come, the next one in \<open>lo..hi\<close>, \<open>cp\<close> collected so far".
\<close>

type_synonym buffer = "8 word list"

definition bytes :: "string \<Rightarrow> buffer" where
  "bytes s = map (\<lambda>c. of_nat (of_char c)) s"

definition UTF16Encode :: "nat \<Rightarrow> jsstring" where
  "UTF16Encode cp =
     (if cp < 0x10000 then [of_nat cp]
      else [of_nat (0xD800 + (cp - 0x10000) div 0x400), of_nat (0xDC00 + (cp - 0x10000) mod 0x400)])"

function utf8_decode :: "nat \<Rightarrow> nat \<Rightarrow> 8 word \<Rightarrow> 8 word \<Rightarrow> buffer \<Rightarrow> jsstring" where
  "utf8_decode cp needed lo hi [] = (if needed = 0 then [] else [0xFFFD])"
| "utf8_decode cp needed lo hi (b # bs) =
     (if needed = 0 then
        (if b \<le> 0x7F then UTF16Encode (unat b) @ utf8_decode 0 0 0x80 0xBF bs
         else if 0xC2 \<le> b \<and> b \<le> 0xDF then utf8_decode (unat (take_bit 5 b)) 1 0x80 0xBF bs
         else if 0xE0 \<le> b \<and> b \<le> 0xEF then
           utf8_decode (unat (take_bit 4 b)) 2
             (if b = 0xE0 then 0xA0 else 0x80) (if b = 0xED then 0x9F else 0xBF) bs
         else if 0xF0 \<le> b \<and> b \<le> 0xF4 then
           utf8_decode (unat (take_bit 3 b)) 3
             (if b = 0xF0 then 0x90 else 0x80) (if b = 0xF4 then 0x8F else 0xBF) bs
         else 0xFFFD # utf8_decode 0 0 0x80 0xBF bs)
      else if \<not> (lo \<le> b \<and> b \<le> hi) then 0xFFFD # utf8_decode 0 0 0x80 0xBF (b # bs)
      else if needed = 1 then
        UTF16Encode (cp * 64 + unat (take_bit 6 b)) @ utf8_decode 0 0 0x80 0xBF bs
      else utf8_decode (cp * 64 + unat (take_bit 6 b)) (needed - 1) 0x80 0xBF bs)"
  by pat_completeness auto
termination
  by (relation "measure (\<lambda>(cp, needed, lo, hi, bs). 2 * length bs + (if needed = 0 then 0 else 1))")
     auto

definition Buffer_toString :: "buffer \<Rightarrow> jsstring" where
  "Buffer_toString Chunk = utf8_decode 0 0 0x80 0xBF Chunk"

subsection \<open>The streaming decoder\<close>

text \<open>
  The variables \<open>LineBuffer\<close> and \<open>LastText\<close> of \<open>ResponseFromClaudeCodeStreaming\<close>
  (line 161), and the increments handed to \<open>onToken\<close> so far, in order.
\<close>

record decoder =
  LineBuffer :: jsstring
  LastText :: jsstring
  Tokens :: "jsstring list"

definition decoder_init :: decoder where
  "decoder_init = \<lparr>LineBuffer = [], LastText = [], Tokens = []\<rparr>"

text \<open>The callback of \<open>forEach\<close> (lines 168-181): one complete line.\<close>

definition onLine :: "parser \<Rightarrow> decoder \<Rightarrow> jsstring \<Rightarrow> decoder" where
  "onLine parse st Line =
     (case parse Line of
        None \<Rightarrow> st
      | Some Event \<Rightarrow>
          (case AssistantText Event of
             Inr (Some Text) \<Rightarrow>
               if length Text > length (LastText st)
               then st\<lparr>Tokens := Tokens st @ [drop (length (LastText st)) Text], LastText := Text\<rparr>
               else st
           | Inr None \<Rightarrow> st
           | Inl e \<Rightarrow> st))"

text \<open>\<open>Lines.pop() ?? ""\<close>: the array without its last element, and that element.\<close>

definition pop :: "jsstring list \<Rightarrow> jsstring list \<times> jsstring" where
  "pop Lines = (case rev Lines of [] \<Rightarrow> ([], []) | l # ls \<Rightarrow> (rev ls, l))"

text \<open>The handler of the \<open>data\<close> event of the process's output (lines 162-182).\<close>

definition onData :: "parser \<Rightarrow> decoder \<Rightarrow> buffer \<Rightarrow> decoder" where
  "onData parse st Chunk =
     (let (Lines, Rest) = pop (split_LF (LineBuffer st @ Buffer_toString Chunk))
      in foldl (onLine parse) (st\<lparr>LineBuffer := Rest\<rparr>) (filter (\<lambda>Line. trim Line \<noteq> []) Lines))"

text \<open>The handler run on the chunks of the output, one after the other.\<close>

definition feed :: "parser \<Rightarrow> decoder \<Rightarrow> buffer list \<Rightarrow> decoder" where
  "feed parse st Chunks = foldl (onData parse) st Chunks"

section \<open>The process session\<close>

text \<open>
  The promise returned by \<open>ResponseFromClaudeCode\<close> and by
  \<open>ResponseFromClaudeCodeStreaming\<close>: the first \<open>resolve\<close> or \<open>reject\<close> settles it,
  later ones have no effect. \<open>Error msg\<close> is \<open>new Error(msg)\<close>; \<open>SpawnError\<close> is
  the error object that the \<open>error\<close> event of the process delivers.
\<close>

datatype rejection = Error jsstring | SpawnError jsstring

datatype 'r promise = Pending | Resolved 'r | Rejected rejection

fun settle :: "'r promise \<Rightarrow> 'r promise \<Rightarrow> 'r promise" where
  "settle Pending outcome = outcome"
| "settle settled outcome = settled"

datatype signal = SIGTERM

text \<open>
  What the event loop delivers to one session: a chunk of the output or of the diagnostic
  stream, the expiry of the timer, the \<open>close\<close> event with the exit code (\<open>None\<close> for
  \<open>null\<close>, a process ended by a signal), the \<open>error\<close> event.
\<close>

datatype event =
    StdoutData buffer
  | StderrData buffer
  | TimerExpired
  | Close "int option"
  | ProcessError jsstring

text \<open>
  The state both functions keep: \<open>StdErr\<close>; the delay in milliseconds of the timer while
  it is armed; the signals sent with \<open>Process.kill\<close>; the argument lists of the calls of
  \<open>console.error\<close>; the promise.
\<close>

record 'r process =
  StdErr :: jsstring
  Timer :: "nat option"
  Signals :: "signal list"
  Console :: "jsstring list list"
  Outcome :: "'r promise"

record response =
  Text :: jsstring
  SessionId :: jsvalue

record session = "response process" +
  StdOut :: jsstring

record streaming_session = "jsvalue process" +
  Decoder :: decoder

text \<open>\<open>SessionId ?? randomUUID()\<close> (lines 117 and 155), for the \<open>SessionId\<close> given by
  the caller and the fresh \<open>uuid\<close>.\<close>

definition UsedSessionId :: "jsvalue \<Rightarrow> jsstring \<Rightarrow> jsvalue" where
  "UsedSessionId Given uuid = (if nullish Given then JString uuid else Given)"

text \<open>The decimal rendering of the exit code in the template literal of line 138.\<close>

fun Nat_toString :: "nat \<Rightarrow> jsstring" where
  "Nat_toString n =
     (if n < 10 then [0x30 + of_nat n] else Nat_toString (n div 10) @ [0x30 + of_nat (n mod 10)])"

definition Code_toString :: "int option \<Rightarrow> jsstring" where
  "Code_toString Code =
     (case Code of
        None \<Rightarrow> str ''null''
      | Some i \<Rightarrow> if i < 0 then 0x2D # Nat_toString (nat (- i)) else Nat_toString (nat i))"

definition timeout_error :: rejection where
  "timeout_error = Error (str ''claude CLI timed out after 120 s'')"

definition exit_error :: "int option \<Rightarrow> jsstring \<Rightarrow> rejection" where
  "exit_error Code StdErrText =
     Error (str ''claude exited with code '' @ Code_toString Code @ str '': '' @ trim StdErrText)"

text \<open>The state after the synchronous part of either function: the timer armed (lines
  128-131 and 186-189), nothing received.\<close>

definition session_init :: session where
  "session_init =
     \<lparr>StdErr = [], Timer = Some 120000, Signals = [], Console = [], Outcome = Pending, StdOut = []\<rparr>"

definition streaming_init :: streaming_session where
  "streaming_init =
     \<lparr>StdErr = [], Timer = Some 120000, Signals = [], Console = [], Outcome = Pending,
      Decoder = decoder_init\<rparr>"

text \<open>
  The parts the two functions share, on the common fields: the timer's callback (it runs
  only while the timer is armed), \<open>clearTimeout\<close>, the logging of the diagnostic text in
  the \<open>close\<close> handler (lines 134-136), the \<open>error\<close> handler (line 142).
\<close>

definition onTimer :: "('r, 'z) process_scheme \<Rightarrow> ('r, 'z) process_scheme" where
  "onTimer st =
     (case Timer st of
        None \<Rightarrow> st
      | Some delay \<Rightarrow>
          st\<lparr>Timer := None, Signals := Signals st @ [SIGTERM],
             Outcome := settle (Outcome st) (Rejected timeout_error)\<rparr>)"

definition clearTimeout :: "('r, 'z) process_scheme \<Rightarrow> ('r, 'z) process_scheme" where
  "clearTimeout st = st\<lparr>Timer := None\<rparr>"

definition logStdErr :: "('r, 'z) process_scheme \<Rightarrow> ('r, 'z) process_scheme" where
  "logStdErr st =
     (if trim (StdErr st) \<noteq> []
      then st\<lparr>Console := Console st @ [[str ''[claude stderr]'', trim (StdErr st)]]\<rparr>
      else st)"

definition onError :: "jsstring \<Rightarrow> ('r, 'z) process_scheme \<Rightarrow> ('r, 'z) process_scheme" where
  "onError Signal st =
     (clearTimeout st)\<lparr>Outcome := settle (Outcome (clearTimeout st)) (Rejected (SpawnError Signal))\<rparr>"

text \<open>\<open>ResponseFromClaudeCode\<close> (lines 109-144): the handlers, by event.\<close>

fun ResponseFromClaudeCode :: "parser \<Rightarrow> jsvalue \<Rightarrow> session \<Rightarrow> event \<Rightarrow> session" where
  "ResponseFromClaudeCode parse Used st (StdoutData Chunk) =
     st\<lparr>StdOut := StdOut st @ Buffer_toString Chunk\<rparr>"
| "ResponseFromClaudeCode parse Used st (StderrData Chunk) =
     st\<lparr>StdErr := StdErr st @ Buffer_toString Chunk\<rparr>"
| "ResponseFromClaudeCode parse Used st TimerExpired = onTimer st"
| "ResponseFromClaudeCode parse Used st (Close Code) =
     (let st1 = logStdErr (clearTimeout st) in
      if Code \<noteq> Some 0
      then st1\<lparr>Outcome := settle (Outcome st1) (Rejected (exit_error Code (StdErr st1)))\<rparr>
      else st1\<lparr>Outcome := settle (Outcome st1)
             (Resolved \<lparr>Text = TextExtractedFromStreamJSON parse (StdOut st1), SessionId = Used\<rparr>)\<rparr>)"
| "ResponseFromClaudeCode parse Used st (ProcessError Signal) = onError Signal st"

text \<open>\<open>ResponseFromClaudeCodeStreaming\<close> (lines 146-202): the handlers, by event.\<close>

fun ResponseFromClaudeCodeStreaming ::
  "parser \<Rightarrow> jsvalue \<Rightarrow> streaming_session \<Rightarrow> event \<Rightarrow> streaming_session" where
  "ResponseFromClaudeCodeStreaming parse Used st (StdoutData Chunk) =
     st\<lparr>Decoder := onData parse (Decoder st) Chunk\<rparr>"
| "ResponseFromClaudeCodeStreaming parse Used st (StderrData Chunk) =
     st\<lparr>StdErr := StdErr st @ Buffer_toString Chunk\<rparr>"
| "ResponseFromClaudeCodeStreaming parse Used st TimerExpired = onTimer st"
| "ResponseFromClaudeCodeStreaming parse Used st (Close Code) =
     (let st1 = logStdErr (clearTimeout st) in
      if Code \<noteq> Some 0
      then st1\<lparr>Outcome := settle (Outcome st1) (Rejected (exit_error Code (StdErr st1)))\<rparr>
      else st1\<lparr>Outcome := settle (Outcome st1) (Resolved Used)\<rparr>)"
| "ResponseFromClaudeCodeStreaming parse Used st (ProcessError Signal) = onError Signal st"

text \<open>A run of a session: the handlers on the events in the order they are delivered.\<close>

definition run :: "('s \<Rightarrow> event \<Rightarrow> 's) \<Rightarrow> 's \<Rightarrow> event list \<Rightarrow> 's" where
  "run handler st events = foldl handler st events"

text \<open>The chunks of the output and of the diagnostic stream among some events.\<close>

fun stdout_chunks :: "event list \<Rightarrow> buffer list" where
  "stdout_chunks [] = []"
| "stdout_chunks (StdoutData Chunk # es) = Chunk # stdout_chunks es"
| "stdout_chunks (e # es) = stdout_chunks es"

fun stderr_chunks :: "event list \<Rightarrow> buffer list" where
  "stderr_chunks [] = []"
| "stderr_chunks (StderrData Chunk # es) = Chunk # stderr_chunks es"
| "stderr_chunks (e # es) = stderr_chunks es"

fun is_data :: "event \<Rightarrow> bool" where
  "is_data (StdoutData Chunk) = True"
| "is_data (StderrData Chunk) = True"
| "is_data e = False"

section \<open>Notions used in the statements\<close>

text \<open>
  The text that the \<open>try\<close> block computes for one line, when it gets that far: the line
  parses, the event is an assistant event with a content, and no exception is thrown.
\<close>

definition LineText :: "parser \<Rightarrow> jsstring \<Rightarrow> jsstring option" where
  "LineText parse Line =
     (case parse Line of
        None \<Rightarrow> None
      | Some Event \<Rightarrow> (case AssistantText Event of Inr (Some T) \<Rightarrow> Some T | _ \<Rightarrow> None))"

text \<open>
  Of a text received so far: the complete lines that are not blank, and the unterminated
  rest after the last line feed.
\<close>

definition complete_lines :: "jsstring \<Rightarrow> jsstring list" where
  "complete_lines s = filter (\<lambda>Line. trim Line \<noteq> []) (butlast (split_LF s))"

definition carry :: "jsstring \<Rightarrow> jsstring" where
  "carry s = last (split_LF s)"

text \<open>What the decoder does with the text of an assistant event.\<close>

definition accept :: "decoder \<Rightarrow> jsstring \<Rightarrow> decoder" where
  "accept st T =
     (if length T > length (LastText st)
      then st\<lparr>Tokens := Tokens st @ [drop (length (LastText st)) T], LastText := T\<rparr>
      else st)"

text \<open>The texts of the assistant events among some lines, in order.\<close>

definition AssistantTexts :: "parser \<Rightarrow> jsstring list \<Rightarrow> jsstring list" where
  "AssistantTexts parse Lines = List.map_filter (LineText parse) Lines"

text \<open>
  The output line of the agent for an assistant event with one text block, for a text
  that needs no escape in JSON, and the value \<open>JSON.parse\<close> gives for that line.
\<close>

definition assistant_line :: "jsstring \<Rightarrow> jsstring" where
  \<open>assistant_line T =
     str ''{"type":"assistant","message":{"content":[{"type":"text","text":"'' @ T @ str ''"}]}}''\<close>

definition assistant_event :: "jsstring \<Rightarrow> jsvalue" where
  "assistant_event T =
     JObject
       [(str ''type'', JString (str ''assistant'')),
        (str ''message'',
           JObject
             [(str ''content'',
                 JArray [JObject [(str ''type'', JString (str ''text'')), (str ''text'', JString T)]])])]"

text \<open>
  The scenario of two assistant events with the texts \<open>Hel\<close> and \<open>Hello\<close>: what
  \<open>JSON.parse\<close> does on the two lines, and the output cut in the middle of the first line.
\<close>

definition Hel_Hello_parse :: parser where
  "Hel_Hello_parse =
     map_of [(assistant_line (str ''Hel''), assistant_event (str ''Hel'')),
             (assistant_line (str ''Hello''), assistant_event (str ''Hello''))]"

definition Hel_Hello_chunks :: "buffer list" where
  \<open>Hel_Hello_chunks =
     [bytes ''{"type":"assistant","mess'',
      bytes ''age":{"content":[{"type":"text","text":"Hel"}]}}'' @ [0x0A] @
      bytes ''{"type":"assistant","message":{"content":[{"type":"text","text":"Hello"}]}}'' @ [0x0A]]\<close>

text \<open>
  The bytes of such a line in UTF-8, before and after the text; the line feed ends it.
\<close>

definition assistant_line_head :: buffer where
  \<open>assistant_line_head = bytes ''{"type":"assistant","message":{"content":[{"type":"text","text":"''\<close>

definition assistant_line_tail :: buffer where
  \<open>assistant_line_tail = bytes ''"}]}}'' @ [0x0A]\<close>

text \<open>
  The output of two assistant events, the second text shorter than the first, a chunk
  for each line.
\<close>

definition Hello_Hi_parse :: parser where
  "Hello_Hi_parse =
     map_of [(assistant_line (str ''Hello''), assistant_event (str ''Hello'')),
             (assistant_line (str ''Hi''), assistant_event (str ''Hi''))]"

definition Hello_Hi_chunks :: "buffer list" where
  "Hello_Hi_chunks =
     [assistant_line_head @ bytes ''Hello'' @ assistant_line_tail,
      assistant_line_head @ bytes ''Hi'' @ assistant_line_tail]"

text \<open>
  For the statements about messages: the value of \<open>V.k\<close> where reading it does not
  throw, the event \<open>MessagesAsNDJSON\<close> builds for such a message, the test of its first
  filter, and a text block.
\<close>

definition Prop :: "jsvalue \<Rightarrow> string \<Rightarrow> jsvalue" where
  "Prop V k = (case Get V (str k) of Inr v \<Rightarrow> v | Inl e \<Rightarrow> JUndefined)"

definition EventOf :: "jsvalue \<Rightarrow> jsvalue" where
  "EventOf Msg =
     JObject
       [(str ''type'',
           JString (if Prop Msg ''role'' = JString (str ''user'') then str ''user'' else str ''assistant'')),
        (str ''message'',
           JObject [(str ''role'', Prop Msg ''role''),
                    (str ''content'', normalizedContent (Prop Msg ''content''))])]"

definition has_role :: "string \<Rightarrow> jsvalue \<Rightarrow> bool" where
  "has_role r Msg \<longleftrightarrow> Prop Msg ''role'' = JString (str r)"

definition TextBlock :: "jsstring \<Rightarrow> jsvalue" where
  "TextBlock t = JObject [(str ''type'', JString (str ''text'')), (str ''text'', JString t)]"

text \<open>The text of a block whose \<open>text\<close> is a string.\<close>

definition text_of :: "jsvalue \<Rightarrow> jsstring" where
  "text_of Block = (case Prop Block ''text'' of JString t \<Rightarrow> t | _ \<Rightarrow> [])"

definition has_string_text :: "jsvalue \<Rightarrow> bool" where
  "has_string_text Block = (case Prop Block ''text'' of JString t \<Rightarrow> True | _ \<Rightarrow> False)"

text \<open>The message \<open>{role: r, content: c}\<close> with a string content.\<close>

definition Message :: "string \<Rightarrow> string \<Rightarrow> jsvalue" where
  "Message r c = JObject [(str ''role'', JString (str r)), (str ''content'', JString (str c))]"

text \<open>A system message whose content is a text block, an image block and another text
  block.\<close>

definition ImageBlock :: jsvalue where
  "ImageBlock =
     JObject [(str ''type'', JString (str ''image'')),
              (str ''source'', JObject [(str ''type'', JString (str ''base64'')),
                                         (str ''media_type'', JString (str ''image/png'')),
                                         (str ''data'', JString (str ''AAAA''))])]"

definition SystemBlocksMessage :: jsvalue where
  "SystemBlocksMessage =
     JObject [(str ''role'', JString (str ''system'')),
              (str ''content'', JArray [TextBlock (str ''Be brief''), ImageBlock, TextBlock (str ''Be kind'')])]"

section \<open>Lines and chunks\<close>

lemma split_LF_nonempty: "split_LF s \<noteq> []"
  by (induction s) (auto split: list.splits)

lemma split_LF_append:
  "split_LF (a @ b) = butlast (split_LF a) @ split_LF (last (split_LF a) @ b)"
proof (induction a)
  case Nil
  then show ?case by simp
next
  case (Cons c cs)
  show ?case
  proof (cases "c = LF")
    case True
    then show ?thesis using Cons split_LF_nonempty[of cs] by simp
  next
    case False
    obtain x xs where sp: "split_LF cs = x # xs"
      using split_LF_nonempty[of cs] by (cases "split_LF cs") auto
    show ?thesis
    proof (cases xs)
      case Nil
      then show ?thesis using False Cons sp by simp
    next
      case (Cons y ys)
      then show ?thesis using False Cons.IH sp by simp
    qed
  qed
qed

lemma split_LF_lines_no_LF: "l \<in> set (split_LF s) \<Longrightarrow> LF \<notin> set l"
  by (induction s arbitrary: l) (auto split: list.splits if_splits)

lemma split_LF_no_LF: "LF \<notin> set l \<Longrightarrow> split_LF l = [l]"
  by (induction l) auto

lemma split_LF_line: "LF \<notin> set l \<Longrightarrow> split_LF (l @ LF # r) = l # split_LF r"
  by (induction l) auto

lemma complete_lines_append:
  "complete_lines (a @ b) = complete_lines a @ complete_lines (carry a @ b)"
  by (simp add: complete_lines_def carry_def split_LF_append[of a b] butlast_append split_LF_nonempty)

lemma carry_append: "carry (a @ b) = carry (carry a @ b)"
  by (simp add: carry_def split_LF_append[of a b] split_LF_nonempty)

lemma pop_split_LF: "pop (split_LF s) = (butlast (split_LF s), last (split_LF s))"
proof -
  obtain l ls where r: "rev (split_LF s) = l # ls"
    using split_LF_nonempty[of s] by (cases "rev (split_LF s)") auto
  then have "split_LF s = rev ls @ [l]" by (metis rev_rev_ident rev.simps(2))
  then show ?thesis using r by (simp add: pop_def)
qed

lemma onLine_accept:
  "onLine parse st Line = (case LineText parse Line of None \<Rightarrow> st | Some T \<Rightarrow> accept st T)"
  by (simp add: onLine_def LineText_def accept_def split: option.splits sum.splits)

lemma accept_LineBuffer: "accept (st\<lparr>LineBuffer := b\<rparr>) T = (accept st T)\<lparr>LineBuffer := b\<rparr>"
  by (simp add: accept_def)

lemma onLine_LineBuffer: "onLine parse (st\<lparr>LineBuffer := b\<rparr>) Line = (onLine parse st Line)\<lparr>LineBuffer := b\<rparr>"
  by (simp add: onLine_accept accept_LineBuffer split: option.splits)

lemma foldl_onLine_LineBuffer:
  "foldl (onLine parse) (st\<lparr>LineBuffer := b\<rparr>) Ls = (foldl (onLine parse) st Ls)\<lparr>LineBuffer := b\<rparr>"
  by (induction Ls arbitrary: st) (simp_all add: onLine_LineBuffer)

lemma onLine_keeps_LineBuffer: "LineBuffer (onLine parse st Line) = LineBuffer st"
  by (simp add: onLine_accept accept_def split: option.splits)

lemma foldl_onLine_keeps_LineBuffer: "LineBuffer (foldl (onLine parse) st Ls) = LineBuffer st"
  by (induction Ls arbitrary: st) (simp_all add: onLine_keeps_LineBuffer)

lemma onData_lines:
  "onData parse st Chunk =
     (foldl (onLine parse) st (complete_lines (LineBuffer st @ Buffer_toString Chunk)))
       \<lparr>LineBuffer := carry (LineBuffer st @ Buffer_toString Chunk)\<rparr>"
  by (simp add: onData_def pop_split_LF complete_lines_def carry_def foldl_onLine_LineBuffer)

lemma complete_lines_append3:
  "complete_lines (a @ b @ c) = complete_lines (a @ b) @ complete_lines (carry (a @ b) @ c)"
  using complete_lines_append[of "a @ b" c] by simp

lemma carry_append3: "carry (a @ b @ c) = carry (carry (a @ b) @ c)"
  using carry_append[of "a @ b" c] by simp

lemma carry_no_LF: "LF \<notin> set (carry s)"
  using split_LF_lines_no_LF[of "last (split_LF s)" s] split_LF_nonempty[of s]
  by (simp add: carry_def)

lemma feed_lines:
  "LF \<notin> set (LineBuffer st) \<Longrightarrow> feed parse st Chunks =
     (foldl (onLine parse) st (complete_lines (LineBuffer st @ concat (map Buffer_toString Chunks))))
       \<lparr>LineBuffer := carry (LineBuffer st @ concat (map Buffer_toString Chunks))\<rparr>"
proof (induction Chunks arbitrary: st)
  case Nil
  then show ?case by (simp add: feed_def complete_lines_def carry_def split_LF_no_LF)
next
  case (Cons C Cs)
  let ?st1 = "onData parse st C"
  have nolf: "LF \<notin> set (LineBuffer ?st1)"
    by (simp add: onData_lines carry_no_LF)
  have "feed parse st (C # Cs) = feed parse ?st1 Cs" by (simp add: feed_def)
  also have "\<dots> = (foldl (onLine parse) ?st1 (complete_lines (LineBuffer ?st1 @ concat (map Buffer_toString Cs))))
       \<lparr>LineBuffer := carry (LineBuffer ?st1 @ concat (map Buffer_toString Cs))\<rparr>"
    by (rule Cons.IH[OF nolf])
  finally show ?case
    by (simp add: onData_lines foldl_onLine_LineBuffer
          complete_lines_append3[of "LineBuffer st" "Buffer_toString C" "concat (map Buffer_toString Cs)"]
          carry_append3[of "LineBuffer st" "Buffer_toString C" "concat (map Buffer_toString Cs)"])
qed

lemma feed_same_text:
  "LF \<notin> set (LineBuffer st) \<Longrightarrow>
   concat (map Buffer_toString Cs) = concat (map Buffer_toString Ds) \<Longrightarrow>
   feed parse st Cs = feed parse st Ds"
  by (simp add: feed_lines)

lemma foldl_onLine_texts:
  "foldl (onLine parse) st Ls = foldl accept st (AssistantTexts parse Ls)"
  by (induction Ls arbitrary: st)
     (simp_all add: AssistantTexts_def onLine_accept List.map_filter_def split: option.splits)

lemma accept_prefix:
  "prefix (LastText st) T \<Longrightarrow> concat (Tokens st) = LastText st \<Longrightarrow>
   LastText (accept st T) = T \<and> concat (Tokens (accept st T)) = T"
  by (auto simp: accept_def prefix_def)

lemma accept_chain_last:
  "successively prefix (LastText st # Ts) \<Longrightarrow> concat (Tokens st) = LastText st \<Longrightarrow>
   LastText (foldl accept st Ts) = last (LastText st # Ts) \<and>
   concat (Tokens (foldl accept st Ts)) = last (LastText st # Ts)"
proof (induction Ts arbitrary: st)
  case Nil
  then show ?case by simp
next
  case (Cons T Ts)
  let ?st1 = "accept st T"
  from Cons.prems have p: "prefix (LastText st) T" by simp
  have a: "LastText ?st1 = T" and c: "concat (Tokens ?st1) = LastText ?st1"
    using accept_prefix[OF p Cons.prems(2)] by simp_all
  have s: "successively prefix (LastText ?st1 # Ts)"
    using Cons.prems(1) a by simp
  show ?case using Cons.IH[OF s c] a by simp
qed

lemma accept_chain_tokens:
  "successively prefix (LastText st # Ts) \<Longrightarrow>
   Tokens (foldl accept st Ts) =
     Tokens st @ filter (\<lambda>t. t \<noteq> []) (map2 (\<lambda>P T. drop (length P) T) (LastText st # Ts) Ts)"
proof (induction Ts arbitrary: st)
  case Nil
  then show ?case by simp
next
  case (Cons T Ts)
  let ?st1 = "accept st T"
  from Cons.prems have p: "prefix (LastText st) T" by simp
  have a: "LastText ?st1 = T"
    using p by (auto simp: accept_def prefix_def)
  have s: "successively prefix (LastText ?st1 # Ts)"
    using Cons.prems(1) a by simp
  have tk: "Tokens ?st1 = Tokens st @ filter (\<lambda>t. t \<noteq> []) [drop (length (LastText st)) T]"
    using p by (auto simp: accept_def prefix_def)
  have "Tokens (foldl accept st (T # Ts)) =
      Tokens ?st1 @ filter (\<lambda>t. t \<noteq> []) (map2 (\<lambda>P T. drop (length P) T) (T # Ts) Ts)"
    using Cons.IH[OF s] a by simp
  also have "\<dots> = Tokens st @ filter (\<lambda>t. t \<noteq> [])
       (map2 (\<lambda>P T. drop (length P) T) (LastText st # T # Ts) (T # Ts))"
    by (simp only: tk) simp
  finally show ?case .
qed

lemma split_LF_terminated_lines:
  "\<forall>L \<in> set Lines. LF \<notin> set L \<Longrightarrow> split_LF (concat (map (\<lambda>L. L @ [LF]) Lines)) = Lines @ [[]]"
  by (induction Lines) (simp_all add: split_LF_line)

lemma AssistantTexts_list_all2:
  "list_all2 (\<lambda>L T. LineText parse L = Some T) Lines Ts \<Longrightarrow> AssistantTexts parse Lines = Ts"
  by (induction Lines Ts rule: list_all2_induct) (simp_all add: AssistantTexts_def List.map_filter_def)

section \<open>The streaming decoder: increments\<close>

text \<open>
  C1. Let the output consist of newline-terminated lines that are assistant events with
  the texts \<open>T1, ..., Tn\<close>, each a strict prefix of the next. However the output is cut
  into chunks, the increments handed to \<open>onToken\<close> concatenate to \<open>Tn\<close>, the recorded
  text ends as \<open>Tn\<close>, and the increments are, in order, the non-empty differences
  between each text and its predecessor (the empty text before \<open>T1\<close>).
\<close>

theorem increments_concatenate_to_final_text:
  assumes lines: "list_all2 (\<lambda>Line T. LF \<notin> set Line \<and> trim Line \<noteq> [] \<and> LineText parse Line = Some T) Lines Ts"
    and chain: "successively strict_prefix Ts"
    and nonempty: "Ts \<noteq> []"
    and chunks: "concat (map Buffer_toString Chunks) = concat (map (\<lambda>Line. Line @ [LF]) Lines)"
  shows "concat (Tokens (feed parse decoder_init Chunks)) = last Ts
       \<and> LastText (feed parse decoder_init Chunks) = last Ts
       \<and> Tokens (feed parse decoder_init Chunks) =
           filter (\<lambda>t. t \<noteq> []) (map2 (\<lambda>P T. drop (length P) T) ([] # Ts) Ts)"
proof -
  have nolf: "\<forall>L \<in> set Lines. LF \<notin> set L" and nonblank: "\<forall>L \<in> set Lines. trim L \<noteq> []"
    using lines by (auto simp: list_all2_conv_all_nth in_set_conv_nth)
  have texts: "AssistantTexts parse Lines = Ts"
    using lines by (intro AssistantTexts_list_all2) (auto elim: list_all2_mono)
  have cl: "complete_lines (concat (map Buffer_toString Chunks)) = Lines"
    using nonblank by (simp add: chunks complete_lines_def split_LF_terminated_lines[OF nolf])
  have fd: "feed parse decoder_init Chunks =
      (foldl accept decoder_init Ts)\<lparr>LineBuffer := carry (concat (map Buffer_toString Chunks))\<rparr>"
    using feed_lines[of decoder_init parse Chunks] cl texts
    by (simp add: foldl_onLine_texts) (simp add: decoder_init_def)
  have pc: "successively prefix (LastText decoder_init # Ts)"
    using chain nonempty
    by (cases Ts) (auto simp: decoder_init_def intro: successively_mono[of strict_prefix])
  have c0: "concat (Tokens decoder_init) = LastText decoder_init"
    by (simp add: decoder_init_def)
  have i0: "LastText decoder_init = []" "Tokens decoder_init = []"
    by (simp_all add: decoder_init_def)
  have "LastText (foldl accept decoder_init Ts) = last Ts"
    and "concat (Tokens (foldl accept decoder_init Ts)) = last Ts"
    using accept_chain_last[OF pc c0] nonempty by (simp_all add: i0)
  moreover have "Tokens (foldl accept decoder_init Ts) =
      filter (\<lambda>t. t \<noteq> []) (map2 (\<lambda>P T. drop (length P) T) ([] # Ts) Ts)"
    using accept_chain_tokens[OF pc] by (simp add: i0)
  ultimately show ?thesis
    by (simp add: fd)
qed

lemma LineText_assistant_line:
  "parse (assistant_line T) = Some (assistant_event T) \<Longrightarrow>
   LineText parse (assistant_line T) = Some T"
  by (simp add: LineText_def AssistantText_def assistant_event_def is_string_def
        ContentAsString_def is_text_block_def str_def)

theorem increments_concatenate_to_final_text_witness:
  "list_all2 (\<lambda>Line T. LF \<notin> set Line \<and> trim Line \<noteq> [] \<and> LineText Hel_Hello_parse Line = Some T)
     [assistant_line (str ''Hel''), assistant_line (str ''Hello'')] [str ''Hel'', str ''Hello'']
   \<and> successively strict_prefix [str ''Hel'', str ''Hello'']
   \<and> concat (map Buffer_toString Hel_Hello_chunks) =
       concat (map (\<lambda>Line. Line @ [LF]) [assistant_line (str ''Hel''), assistant_line (str ''Hello'')])
   \<and> Tokens (feed Hel_Hello_parse decoder_init Hel_Hello_chunks) = [str ''Hel'', str ''lo'']
   \<and> LastText (feed Hel_Hello_parse decoder_init Hel_Hello_chunks) = str ''Hello''
   \<and> concat (Tokens (feed Hel_Hello_parse decoder_init Hel_Hello_chunks)) = str ''Hello''"
proof -
  have t: "LineText Hel_Hello_parse (assistant_line (str ''Hel'')) = Some (str ''Hel'')"
    "LineText Hel_Hello_parse (assistant_line (str ''Hello'')) = Some (str ''Hello'')"
    unfolding Hel_Hello_parse_def
    by (rule LineText_assistant_line, simp add: assistant_line_def str_def)+
  have n: "LF \<notin> set (assistant_line (str ''Hel''))" "LF \<notin> set (assistant_line (str ''Hello''))"
    by (simp_all add: assistant_line_def str_def LF_def)
  have b: "trim (assistant_line (str ''Hel'')) \<noteq> []" "trim (assistant_line (str ''Hello'')) \<noteq> []"
    by (simp_all add: assistant_line_def str_def trim_def isWhiteSpace_def)
  have h1: "list_all2 (\<lambda>Line T. LF \<notin> set Line \<and> trim Line \<noteq> [] \<and> LineText Hel_Hello_parse Line = Some T)
      [assistant_line (str ''Hel''), assistant_line (str ''Hello'')] [str ''Hel'', str ''Hello'']"
    using t n b by simp
  have h2: "successively strict_prefix [str ''Hel'', str ''Hello'']"
    by (simp add: str_def)
  have h3: "[str ''Hel'', str ''Hello''] \<noteq> []"
    by simp
  have h4: "concat (map Buffer_toString Hel_Hello_chunks) =
      concat (map (\<lambda>Line. Line @ [LF]) [assistant_line (str ''Hel''), assistant_line (str ''Hello'')])"
    by (simp add: Hel_Hello_chunks_def Buffer_toString_def UTF16Encode_def bytes_def
          assistant_line_def str_def LF_def)
  have "Tokens (feed Hel_Hello_parse decoder_init Hel_Hello_chunks) = [str ''Hel'', str ''lo'']"
    and "LastText (feed Hel_Hello_parse decoder_init Hel_Hello_chunks) = str ''Hello''"
    and "concat (Tokens (feed Hel_Hello_parse decoder_init Hel_Hello_chunks)) = str ''Hello''"
    using increments_concatenate_to_final_text[OF h1 h2 h3 h4]
    by (simp_all add: str_def)
  then show ?thesis
    using h1 h2 h4 by blast
qed

section \<open>The streaming decoder: the recorded text never shrinks\<close>

lemma accept_length: "length (LastText st) \<le> length (LastText (accept st T))"
  by (simp add: accept_def)

lemma foldl_accept_length: "length (LastText st) \<le> length (LastText (foldl accept st Ts))"
proof (induction Ts arbitrary: st)
  case Nil
  then show ?case by simp
next
  case (Cons T Ts)
  have "length (LastText st) \<le> length (LastText (accept st T))" by (rule accept_length)
  also have "\<dots> \<le> length (LastText (foldl accept (accept st T) Ts))" by (rule Cons.IH)
  finally show ?case by simp
qed

lemma onData_length: "length (LastText st) \<le> length (LastText (onData parse st Chunk))"
  by (simp add: onData_lines foldl_onLine_texts foldl_accept_length)

lemma feed_length: "length (LastText st) \<le> length (LastText (feed parse st Chunks))"
proof (induction Chunks arbitrary: st)
  case Nil
  then show ?case by (simp add: feed_def)
next
  case (Cons C Cs)
  have "length (LastText st) \<le> length (LastText (onData parse st C))" by (rule onData_length)
  also have "\<dots> \<le> length (LastText (feed parse (onData parse st C) Cs))" by (rule Cons.IH)
  finally show ?case by (simp add: feed_def)
qed

text \<open>
  C3. A line that is an assistant event whose text is not longer than the recorded text
  leaves the decoder as it is: no increment is emitted and the recorded text is
  unchanged. The length of the recorded text never decreases: not over a line, not over a
  chunk, not over any sequence of chunks.
\<close>

theorem shorter_or_equal_text_is_ignored:
  "(LineText parse Line = Some T \<longrightarrow> length T \<le> length (LastText st) \<longrightarrow> onLine parse st Line = st)
   \<and> length (LastText st) \<le> length (LastText (onLine parse st Line))
   \<and> length (LastText st) \<le> length (LastText (onData parse st Chunk))
   \<and> length (LastText st) \<le> length (LastText (feed parse st Chunks))"
proof -
  have "onLine parse st Line = st" if "LineText parse Line = Some T" "length T \<le> length (LastText st)"
    using that by (simp add: onLine_accept accept_def)
  moreover have "length (LastText st) \<le> length (LastText (onLine parse st Line))"
    by (simp add: onLine_accept accept_length split: option.splits)
  ultimately show ?thesis
    using onData_length[of st parse Chunk] feed_length[of st parse Chunks] by blast
qed

theorem shorter_or_equal_text_is_ignored_witness:
  "LineText Hel_Hello_parse (assistant_line (str ''Hel'')) = Some (str ''Hel'')
   \<and> length (str ''Hel'') \<le> length (LastText \<lparr>LineBuffer = [], LastText = str ''Hello'', Tokens = [str ''Hello'']\<rparr>)
   \<and> onLine Hel_Hello_parse \<lparr>LineBuffer = [], LastText = str ''Hello'', Tokens = [str ''Hello'']\<rparr>
        (assistant_line (str ''Hel''))
      = \<lparr>LineBuffer = [], LastText = str ''Hello'', Tokens = [str ''Hello'']\<rparr>"
proof -
  have t: "LineText Hel_Hello_parse (assistant_line (str ''Hel'')) = Some (str ''Hel'')"
    unfolding Hel_Hello_parse_def
    by (rule LineText_assistant_line) (simp add: assistant_line_def str_def)
  have l: "length (str ''Hel'') \<le> length (LastText \<lparr>LineBuffer = [], LastText = str ''Hello'', Tokens = [str ''Hello'']\<rparr>)"
    by (simp add: str_def)
  show ?thesis
    using shorter_or_equal_text_is_ignored[of Hel_Hello_parse "assistant_line (str ''Hel'')" "str ''Hel''"
        "\<lparr>LineBuffer = [], LastText = str ''Hello'', Tokens = [str ''Hello'']\<rparr>"] t l
    by blast
qed

section \<open>The streaming decoder: chunk boundaries\<close>

lemma utf8_decode_ascii:
  "\<forall>b \<in> set bs. b \<le> 0x7F \<Longrightarrow> utf8_decode 0 0 0x80 0xBF bs = map ucast bs"
proof (induction bs)
  case Nil
  then show ?case by simp
next
  case (Cons b bs)
  have "b \<le> 0x7F" using Cons.prems by simp
  then have "unat b < 0x10000" by (simp add: word_le_nat_alt)
  then show ?case using Cons by (simp add: UTF16Encode_def)
qed

lemma Buffer_toString_ascii_concat:
  "\<forall>b \<in> set (concat Cs). b \<le> 0x7F \<Longrightarrow>
   concat (map Buffer_toString Cs) = Buffer_toString (concat Cs)"
proof -
  assume a: "\<forall>b \<in> set (concat Cs). b \<le> 0x7F"
  have "\<forall>C \<in> set Cs. Buffer_toString C = map ucast C"
    using a by (auto simp: Buffer_toString_def intro!: utf8_decode_ascii)
  then have "concat (map Buffer_toString Cs) = concat (map (map ucast) Cs)"
    by (induction Cs) simp_all
  also have "\<dots> = map ucast (concat Cs)" by (simp add: map_concat)
  also have "\<dots> = Buffer_toString (concat Cs)"
    using a by (simp add: Buffer_toString_def utf8_decode_ascii)
  finally show ?thesis .
qed

lemma feed_ascii_chunks:
  "\<forall>b \<in> set (concat Cs). b \<le> 0x7F \<Longrightarrow>
   feed parse decoder_init Cs = feed parse decoder_init [concat Cs]"
  by (rule feed_same_text) (simp_all add: decoder_init_def Buffer_toString_ascii_concat)

lemma carry_terminated_lines:
  "\<forall>L \<in> set Lines. LF \<notin> set L \<Longrightarrow> carry (concat (map (\<lambda>L. L @ [LF]) Lines)) = []"
  by (simp add: carry_def split_LF_terminated_lines)

lemma foldl_accept_keeps_LineBuffer: "LineBuffer (foldl accept st Ts) = LineBuffer st"
  by (induction Ts arbitrary: st) (simp_all add: accept_def)

lemma feed_terminated_lines:
  assumes "\<forall>L \<in> set Lines. LF \<notin> set L \<and> trim L \<noteq> []"
    and "concat (map Buffer_toString Chunks) = concat (map (\<lambda>L. L @ [LF]) Lines)"
  shows "feed parse decoder_init Chunks = foldl accept decoder_init (AssistantTexts parse Lines)"
proof -
  have nolf: "\<forall>L \<in> set Lines. LF \<notin> set L" and nonblank: "\<forall>L \<in> set Lines. trim L \<noteq> []"
    using assms(1) by simp_all
  have cl: "complete_lines (concat (map Buffer_toString Chunks)) = Lines"
    using nonblank by (simp add: assms(2) complete_lines_def split_LF_terminated_lines[OF nolf])
  have ca: "carry (concat (map Buffer_toString Chunks)) = []"
    by (simp add: assms(2) carry_terminated_lines[OF nolf])
  have lb: "LineBuffer decoder_init = []"
    by (simp add: decoder_init_def)
  have "feed parse decoder_init Chunks =
      (foldl accept decoder_init (AssistantTexts parse Lines))\<lparr>LineBuffer := []\<rparr>"
    using feed_lines[of decoder_init parse Chunks] by (simp add: lb cl ca foldl_onLine_texts)
  moreover have "LineBuffer (foldl accept decoder_init (AssistantTexts parse Lines)) = []"
    by (simp add: foldl_accept_keeps_LineBuffer lb)
  ultimately show ?thesis by simp
qed

lemma feed_one_assistant_line:
  assumes "parse (assistant_line T) = Some (assistant_event T)"
    and "LF \<notin> set T" and "T \<noteq> []"
    and "concat (map Buffer_toString Chunks) = assistant_line T @ [LF]"
  shows "feed parse decoder_init Chunks = \<lparr>LineBuffer = [], LastText = T, Tokens = [T]\<rparr>"
proof -
  have nolf: "LF \<notin> set (assistant_line T)"
    using assms(2) by (simp add: assistant_line_def str_def LF_def)
  have nonblank: "trim (assistant_line T) \<noteq> []"
    by (simp add: assistant_line_def str_def trim_def isWhiteSpace_def)
  have "feed parse decoder_init Chunks = foldl accept decoder_init (AssistantTexts parse [assistant_line T])"
    using nolf nonblank assms(4) by (intro feed_terminated_lines) simp_all
  then show ?thesis
    using assms(3) LineText_assistant_line[of parse T, OF assms(1)]
    by (simp add: AssistantTexts_def List.map_filter_def accept_def decoder_init_def)
qed


text \<open>
  C4. The decoder turns each chunk into text on its own, so a chunk boundary inside the
  UTF-8 encoding of one character changes the text. The output is one assistant event with
  the text U+00E9, encoded as the bytes C3 A9. Delivered whole, the decoder emits U+00E9;
  delivered in two chunks cut between C3 and A9, it emits U+FFFD U+FFFD. (For chunks that
  decode to the same text the decoder does the same, \<open>feed_same_text\<close>, in particular
  for every way of cutting an output of ASCII bytes, \<open>feed_ascii_chunks\<close>.)
\<close>

theorem chunk_boundary_inside_character:
  assumes "parse (assistant_line [0xE9]) = Some (assistant_event [0xE9])"
    and "parse (assistant_line [0xFFFD, 0xFFFD]) = Some (assistant_event [0xFFFD, 0xFFFD])"
  shows "feed parse decoder_init [assistant_line_head @ [0xC3, 0xA9] @ assistant_line_tail]
           = \<lparr>LineBuffer = [], LastText = [0xE9], Tokens = [[0xE9]]\<rparr>
       \<and> feed parse decoder_init [assistant_line_head @ [0xC3], [0xA9] @ assistant_line_tail]
           = \<lparr>LineBuffer = [], LastText = [0xFFFD, 0xFFFD], Tokens = [[0xFFFD, 0xFFFD]]\<rparr>"
proof -
  have whole: "concat (map Buffer_toString [assistant_line_head @ [0xC3, 0xA9] @ assistant_line_tail])
      = assistant_line [0xE9] @ [LF]"
    by (simp add: assistant_line_head_def assistant_line_tail_def Buffer_toString_def
          UTF16Encode_def bytes_def assistant_line_def str_def LF_def)
  have split: "concat (map Buffer_toString [assistant_line_head @ [0xC3], [0xA9] @ assistant_line_tail])
      = assistant_line [0xFFFD, 0xFFFD] @ [LF]"
    by (simp add: assistant_line_head_def assistant_line_tail_def Buffer_toString_def
          UTF16Encode_def bytes_def assistant_line_def str_def LF_def)
  have "feed parse decoder_init [assistant_line_head @ [0xC3, 0xA9] @ assistant_line_tail]
           = \<lparr>LineBuffer = [], LastText = [0xE9], Tokens = [[0xE9]]\<rparr>"
    using assms(1) whole by (intro feed_one_assistant_line) (simp_all add: LF_def)
  moreover have "feed parse decoder_init [assistant_line_head @ [0xC3], [0xA9] @ assistant_line_tail]
           = \<lparr>LineBuffer = [], LastText = [0xFFFD, 0xFFFD], Tokens = [[0xFFFD, 0xFFFD]]\<rparr>"
    using assms(2) split by (intro feed_one_assistant_line) (simp_all add: LF_def)
  ultimately show ?thesis by simp
qed

theorem chunk_boundary_inside_character_witness:
  "map_of [(assistant_line [0xE9], assistant_event [0xE9]),
           (assistant_line [0xFFFD, 0xFFFD], assistant_event [0xFFFD, 0xFFFD])]
     (assistant_line [0xE9]) = Some (assistant_event [0xE9])
   \<and> map_of [(assistant_line [0xE9], assistant_event [0xE9]),
           (assistant_line [0xFFFD, 0xFFFD], assistant_event [0xFFFD, 0xFFFD])]
     (assistant_line [0xFFFD, 0xFFFD]) = Some (assistant_event [0xFFFD, 0xFFFD])
   \<and> Tokens (feed (map_of [(assistant_line [0xE9], assistant_event [0xE9]),
           (assistant_line [0xFFFD, 0xFFFD], assistant_event [0xFFFD, 0xFFFD])]) decoder_init
         [assistant_line_head @ [0xC3, 0xA9] @ assistant_line_tail]) = [[0xE9]]
   \<and> Tokens (feed (map_of [(assistant_line [0xE9], assistant_event [0xE9]),
           (assistant_line [0xFFFD, 0xFFFD], assistant_event [0xFFFD, 0xFFFD])]) decoder_init
         [assistant_line_head @ [0xC3], [0xA9] @ assistant_line_tail]) = [[0xFFFD, 0xFFFD]]"
proof -
  let ?parse = "map_of [(assistant_line [0xE9], assistant_event [0xE9]),
           (assistant_line [0xFFFD, 0xFFFD], assistant_event [0xFFFD, 0xFFFD])]"
  have p1: "?parse (assistant_line [0xE9]) = Some (assistant_event [0xE9])"
    by simp
  have p2: "?parse (assistant_line [0xFFFD, 0xFFFD]) = Some (assistant_event [0xFFFD, 0xFFFD])"
    by (simp add: assistant_line_def)
  show ?thesis
    using chunk_boundary_inside_character[of ?parse, OF p1 p2] p1 p2 by simp
qed

section \<open>The whole-output parse and the streaming decoder\<close>

lemma foldl_LastAssistantText:
  "foldl (LastAssistantText parse) x Ls = last (x # AssistantTexts parse Ls)"
  by (induction Ls arbitrary: x)
     (auto simp: LastAssistantText_def LineText_def AssistantTexts_def List.map_filter_def
           split: option.splits sum.splits)

lemma carry_complete: "Raw = [] \<or> last Raw = LF \<Longrightarrow> carry Raw = []"
proof (cases "Raw = []")
  case True
  then show ?thesis by (simp add: carry_def)
next
  case False
  assume "Raw = [] \<or> last Raw = LF"
  with False have "Raw = butlast Raw @ [LF]"
    by (metis append_butlast_last_id)
  then obtain xs where r: "Raw = xs @ [LF]" ..
  have "LF \<notin> set (last (split_LF xs))"
    using split_LF_lines_no_LF[of "last (split_LF xs)" xs] split_LF_nonempty[of xs] by simp
  then have "split_LF (last (split_LF xs) @ [LF]) = [last (split_LF xs), []]"
    using split_LF_line[of "last (split_LF xs)" "[]"] by simp
  then show ?thesis
    by (simp add: carry_def r split_LF_append[of xs "[LF]"])
qed

lemma nonblank_lines_complete:
  assumes "Raw = [] \<or> last Raw = LF"
  shows "filter (\<lambda>Line. trim Line \<noteq> []) (split_LF Raw) = complete_lines Raw"
proof -
  have "split_LF Raw = butlast (split_LF Raw) @ [carry Raw]"
    using split_LF_nonempty[of Raw] by (simp add: carry_def)
  then have "filter (\<lambda>Line. trim Line \<noteq> []) (split_LF Raw) =
      filter (\<lambda>Line. trim Line \<noteq> []) (butlast (split_LF Raw) @ [[]])"
    using carry_complete[OF assms] by simp
  then show ?thesis by (simp add: complete_lines_def trim_def)
qed

lemma foldl_accept_LastText_in:
  "LastText (foldl accept st Ts) \<in> insert (LastText st) (set Ts)"
proof (induction Ts arbitrary: st)
  case Nil
  then show ?case by simp
next
  case (Cons T Ts)
  have "LastText (accept st T) \<in> {LastText st, T}" by (simp add: accept_def)
  then show ?case using Cons.IH[of "accept st T"] by auto
qed

lemma foldl_accept_longest_last:
  assumes "\<forall>T \<in> set (butlast Ts). length T < length (last Ts)"
  shows "LastText (foldl accept decoder_init Ts) = last ([] # Ts)"
proof (cases Ts rule: rev_cases)
  case Nil
  then show ?thesis by (simp add: decoder_init_def)
next
  case (snoc Us T)
  let ?st = "foldl accept decoder_init Us"
  have "LastText ?st \<in> insert [] (set Us)"
    using foldl_accept_LastText_in[of decoder_init Us] by (simp add: decoder_init_def)
  then have "length (LastText ?st) < length T \<or> LastText ?st = []"
    using assms snoc by auto
  then have "LastText (accept ?st T) = T"
    by (auto simp: accept_def)
  then show ?thesis using snoc by simp
qed

text \<open>
  C2, as amended. \<open>TextExtractedFromStreamJSON\<close> splits, filters and decodes the lines as
  the streaming decoder does, but it has no length guard: its result is the text of the
  last assistant event of the output, the empty text when there is none. For an output
  that is empty or ends with a line feed, it is the text the streaming decoder ends with
  whenever the last assistant event's text is longer than that of every assistant event
  before it.
\<close>

theorem whole_output_parse_returns_last_text:
  "TextExtractedFromStreamJSON parse Raw =
     last ([] # AssistantTexts parse (filter (\<lambda>Line. trim Line \<noteq> []) (split_LF Raw)))
   \<and> ((Raw = [] \<or> last Raw = LF) \<longrightarrow>
      concat (map Buffer_toString Chunks) = Raw \<longrightarrow>
      (\<forall>T \<in> set (butlast (AssistantTexts parse (complete_lines Raw))).
          length T < length (last (AssistantTexts parse (complete_lines Raw)))) \<longrightarrow>
      TextExtractedFromStreamJSON parse Raw = LastText (feed parse decoder_init Chunks))"
proof -
  have 1: "TextExtractedFromStreamJSON parse Raw =
     last ([] # AssistantTexts parse (filter (\<lambda>Line. trim Line \<noteq> []) (split_LF Raw)))"
    by (simp only: TextExtractedFromStreamJSON_def foldl_LastAssistantText)
  have 2: "TextExtractedFromStreamJSON parse Raw = LastText (feed parse decoder_init Chunks)"
    if c: "Raw = [] \<or> last Raw = LF" and r: "concat (map Buffer_toString Chunks) = Raw"
      and l: "\<forall>T \<in> set (butlast (AssistantTexts parse (complete_lines Raw))).
          length T < length (last (AssistantTexts parse (complete_lines Raw)))"
  proof -
    have "LastText (feed parse decoder_init Chunks) =
        LastText (foldl accept decoder_init (AssistantTexts parse (complete_lines Raw)))"
      using feed_lines[of decoder_init parse Chunks] r
      by (simp add: foldl_onLine_texts) (simp add: decoder_init_def)
    also have "\<dots> = last ([] # AssistantTexts parse (complete_lines Raw))"
      by (rule foldl_accept_longest_last[OF l])
    finally show ?thesis
      by (simp only: 1 nonblank_lines_complete[OF c])
  qed
  show ?thesis using 1 2 by blast
qed

lemma assistant_line_is_line:
  "LF \<notin> set T \<Longrightarrow> LF \<notin> set (assistant_line T) \<and> trim (assistant_line T) \<noteq> []"
  by (simp add: assistant_line_def str_def LF_def trim_def isWhiteSpace_def)

lemma Hel_Hello_text:
  "concat (map Buffer_toString Hel_Hello_chunks) =
     concat (map (\<lambda>Line. Line @ [LF]) [assistant_line (str ''Hel''), assistant_line (str ''Hello'')])"
  by (simp add: Hel_Hello_chunks_def Buffer_toString_def UTF16Encode_def bytes_def
        assistant_line_def str_def LF_def)

lemma Hel_Hello_texts:
  "AssistantTexts Hel_Hello_parse [assistant_line (str ''Hel''), assistant_line (str ''Hello'')]
     = [str ''Hel'', str ''Hello'']"
proof -
  have "LineText Hel_Hello_parse (assistant_line (str ''Hel'')) = Some (str ''Hel'')"
    "LineText Hel_Hello_parse (assistant_line (str ''Hello'')) = Some (str ''Hello'')"
    unfolding Hel_Hello_parse_def
    by (rule LineText_assistant_line, simp add: assistant_line_def str_def)+
  then show ?thesis by (simp add: AssistantTexts_def List.map_filter_def)
qed

lemma Hello_Hi_text:
  "concat (map Buffer_toString Hello_Hi_chunks) =
     concat (map (\<lambda>Line. Line @ [LF]) [assistant_line (str ''Hello''), assistant_line (str ''Hi'')])"
  by (simp add: Hello_Hi_chunks_def assistant_line_head_def assistant_line_tail_def
        Buffer_toString_def UTF16Encode_def bytes_def assistant_line_def str_def LF_def)

lemma Hello_Hi_texts:
  "AssistantTexts Hello_Hi_parse [assistant_line (str ''Hello''), assistant_line (str ''Hi'')]
     = [str ''Hello'', str ''Hi'']"
proof -
  have "LineText Hello_Hi_parse (assistant_line (str ''Hello'')) = Some (str ''Hello'')"
    "LineText Hello_Hi_parse (assistant_line (str ''Hi'')) = Some (str ''Hi'')"
    unfolding Hello_Hi_parse_def
    by (rule LineText_assistant_line, simp add: assistant_line_def str_def)+
  then show ?thesis by (simp add: AssistantTexts_def List.map_filter_def)
qed

lemma nonblank_terminated_lines:
  "\<forall>L \<in> set Lines. LF \<notin> set L \<and> trim L \<noteq> [] \<Longrightarrow>
   filter (\<lambda>Line. trim Line \<noteq> []) (split_LF (concat (map (\<lambda>L. L @ [LF]) Lines))) = Lines"
  by (simp add: split_LF_terminated_lines trim_def)

lemma complete_terminated_lines:
  "\<forall>L \<in> set Lines. LF \<notin> set L \<and> trim L \<noteq> [] \<Longrightarrow>
   complete_lines (concat (map (\<lambda>L. L @ [LF]) Lines)) = Lines"
  by (simp add: complete_lines_def split_LF_terminated_lines)

text \<open>
  C2 as stated fails: for the output of two assistant events with the texts \<open>Hello\<close> and
  then \<open>Hi\<close>, the whole-output parse returns \<open>Hi\<close>, while the streaming decoder keeps
  \<open>Hello\<close>.
\<close>

theorem whole_output_parse_has_no_length_guard:
  "TextExtractedFromStreamJSON Hello_Hi_parse (concat (map Buffer_toString Hello_Hi_chunks)) = str ''Hi''
   \<and> LastText (feed Hello_Hi_parse decoder_init Hello_Hi_chunks) = str ''Hello''
   \<and> TextExtractedFromStreamJSON Hello_Hi_parse (concat (map Buffer_toString Hello_Hi_chunks))
       \<noteq> LastText (feed Hello_Hi_parse decoder_init Hello_Hi_chunks)"
proof -
  have "LF \<notin> set (str ''Hello'')" "LF \<notin> set (str ''Hi'')"
    by (simp_all add: str_def LF_def)
  then have lines: "\<forall>L \<in> set [assistant_line (str ''Hello''), assistant_line (str ''Hi'')].
      LF \<notin> set L \<and> trim L \<noteq> []"
    using assistant_line_is_line by simp
  have 1: "TextExtractedFromStreamJSON Hello_Hi_parse (concat (map Buffer_toString Hello_Hi_chunks))
      = str ''Hi''"
    by (simp only: TextExtractedFromStreamJSON_def foldl_LastAssistantText Hello_Hi_text
          nonblank_terminated_lines[OF lines] Hello_Hi_texts) simp
  have "feed Hello_Hi_parse decoder_init Hello_Hi_chunks =
      foldl accept decoder_init [str ''Hello'', str ''Hi'']"
    using feed_terminated_lines[OF lines Hello_Hi_text, of Hello_Hi_parse]
    by (simp only: Hello_Hi_texts)
  then have 2: "LastText (feed Hello_Hi_parse decoder_init Hello_Hi_chunks) = str ''Hello''"
    by (simp add: accept_def decoder_init_def str_def)
  have "str ''Hi'' \<noteq> str ''Hello''" by (simp add: str_def)
  then show ?thesis using 1 2 by simp
qed

text \<open>The amended C2 on the output of the events \<open>Hel\<close> and \<open>Hello\<close>.\<close>

theorem whole_output_parse_returns_last_text_witness:
  "last (concat (map Buffer_toString Hel_Hello_chunks)) = LF
   \<and> AssistantTexts Hel_Hello_parse (complete_lines (concat (map Buffer_toString Hel_Hello_chunks)))
       = [str ''Hel'', str ''Hello'']
   \<and> length (str ''Hel'') < length (str ''Hello'')
   \<and> TextExtractedFromStreamJSON Hel_Hello_parse (concat (map Buffer_toString Hel_Hello_chunks))
       = str ''Hello''
   \<and> LastText (feed Hel_Hello_parse decoder_init Hel_Hello_chunks) = str ''Hello''"
proof -
  let ?Raw = "concat (map Buffer_toString Hel_Hello_chunks)"
  have "LF \<notin> set (str ''Hel'')" "LF \<notin> set (str ''Hello'')"
    by (simp_all add: str_def LF_def)
  then have lines: "\<forall>L \<in> set [assistant_line (str ''Hel''), assistant_line (str ''Hello'')].
      LF \<notin> set L \<and> trim L \<noteq> []"
    using assistant_line_is_line by simp
  have c: "?Raw = [] \<or> last ?Raw = LF"
    by (simp add: Hel_Hello_text)
  have t: "AssistantTexts Hel_Hello_parse (complete_lines ?Raw) = [str ''Hel'', str ''Hello'']"
    by (simp only: Hel_Hello_text complete_terminated_lines[OF lines] Hel_Hello_texts)
  have l: "\<forall>T \<in> set (butlast (AssistantTexts Hel_Hello_parse (complete_lines ?Raw))).
      length T < length (last (AssistantTexts Hel_Hello_parse (complete_lines ?Raw)))"
    by (simp add: t str_def)
  have n: "AssistantTexts Hel_Hello_parse (filter (\<lambda>Line. trim Line \<noteq> []) (split_LF ?Raw))
      = [str ''Hel'', str ''Hello'']"
    by (simp only: Hel_Hello_text nonblank_terminated_lines[OF lines] Hel_Hello_texts)
  note th = whole_output_parse_returns_last_text[of Hel_Hello_parse ?Raw Hel_Hello_chunks]
  have "TextExtractedFromStreamJSON Hel_Hello_parse ?Raw =
      last ([] # AssistantTexts Hel_Hello_parse (filter (\<lambda>Line. trim Line \<noteq> []) (split_LF ?Raw)))"
    using th by blast
  then have a: "TextExtractedFromStreamJSON Hel_Hello_parse ?Raw = str ''Hello''"
    by (simp only: n) simp
  have b: "TextExtractedFromStreamJSON Hel_Hello_parse ?Raw =
      LastText (feed Hel_Hello_parse decoder_init Hel_Hello_chunks)"
    using th c l by blast
  have e: "last ?Raw = LF"
    by (simp add: Hel_Hello_text)
  have "length (str ''Hel'') < length (str ''Hello'')"
    by (simp add: str_def)
  then show ?thesis
    using a b e t by simp
qed

section \<open>The translator\<close>

lemma Get_Prop: "\<not> nullish V \<Longrightarrow> Get V (str k) = Inr (Prop V k)"
  by (cases V) (simp_all add: Prop_def)

lemma Array_filter_total:
  "\<forall>x \<in> set xs. p x = Inr (q x) \<Longrightarrow> Array_filter p xs = Inr (filter q xs)"
  by (induction xs) simp_all

lemma Array_map_total:
  "\<forall>x \<in> set xs. f x = Inr (g x) \<Longrightarrow> Array_map f xs = Inr (map g xs)"
  by (induction xs) simp_all

lemma not_system_Prop: "\<not> nullish Msg \<Longrightarrow> not_system Msg = Inr (\<not> has_role ''system'' Msg)"
  by (simp add: not_system_def Get_Prop is_string_def has_role_def)

lemma AgentEvent_EventOf: "\<not> nullish Msg \<Longrightarrow> AgentEvent Msg = Inr (EventOf Msg)"
  by (simp add: AgentEvent_def Get_Prop EventOf_def is_string_def)

lemma MessagesAsNDJSON_total:
  assumes "\<forall>Msg \<in> set Messages. \<not> nullish Msg"
  shows "MessagesAsNDJSON Messages =
     Inr (join [LF] (map (\<lambda>Msg. EventLine (EventOf Msg))
            (filter (\<lambda>Msg. \<not> has_role ''system'' Msg) Messages)) @ [LF])"
proof -
  have f: "Array_filter not_system Messages = Inr (filter (\<lambda>Msg. \<not> has_role ''system'' Msg) Messages)"
    using assms by (intro Array_filter_total) (simp add: not_system_Prop)
  have m: "Array_map AgentEvent (filter (\<lambda>Msg. \<not> has_role ''system'' Msg) Messages) =
      Inr (map EventOf (filter (\<lambda>Msg. \<not> has_role ''system'' Msg) Messages))"
    using assms by (intro Array_map_total) (simp add: AgentEvent_EventOf)
  show ?thesis
    by (simp add: MessagesAsNDJSON_def f m comp_def)
qed

text \<open>The text \<open>JSON.stringify\<close> writes never contains a line feed.\<close>

lemma hexdigit_not_LF: "d < 16 \<Longrightarrow> hexdigit d \<noteq> 0x0A"
proof
  assume d: "d < 16" and h: "hexdigit d = 0x0A"
  have u: "unat d < 16" using d by (simp add: word_less_nat_alt)
  show False
  proof (cases "d < 10")
    case True
    have "unat (0x30 + d) = (48 + unat d) mod 2 ^ 16"
      by (simp add: unat_word_ariths(1))
    then have "unat (0x30 + d) = 48 + unat d" using u by simp
    moreover have "0x30 + d = 0x0A" using h True by (simp add: hexdigit_def)
    ultimately show False by simp
  next
    case False
    have "unat (0x57 + d) = (87 + unat d) mod 2 ^ 16"
      by (simp add: unat_word_ariths(1))
    then have "unat (0x57 + d) = 87 + unat d" using u by simp
    moreover have "0x57 + d = 0x0A" using h False by (simp add: hexdigit_def)
    ultimately show False by simp
  qed
qed

lemma take_bit_4_less: "take_bit 4 (c :: 16 word) < 16"
  by (simp add: word_less_nat_alt take_bit_eq_mod unat_mod_distrib)

lemma drop_bit_12_less: "drop_bit 12 (c :: 16 word) < 16"
proof -
  have "unat c < 2 ^ 16" using unsigned_less[of c] by simp
  then have "unat c div 2 ^ 12 < 16" by simp
  then show ?thesis
    by (simp add: word_less_nat_alt drop_bit_eq_div unat_div_distrib)
qed

lemma UnicodeEscape_no_LF: "LF \<notin> set (UnicodeEscape c)"
  using hexdigit_not_LF[OF drop_bit_12_less, of c] hexdigit_not_LF[OF take_bit_4_less]
  by (auto simp: UnicodeEscape_def LF_def)

lemma QuoteUnit_no_LF: "LF \<notin> set (QuoteUnit c)"
  using UnicodeEscape_no_LF[of c] by (auto simp: QuoteUnit_def LF_def)

lemma QuoteUnits_no_LF: "LF \<notin> set (QuoteUnits s)"
proof (induction s rule: QuoteUnits.induct)
  case 1
  then show ?case by simp
next
  case (2 c)
  then show ?case by (simp add: QuoteUnit_no_LF)
next
  case (3 c d cs)
  have "isLeadingSurrogate c \<Longrightarrow> c \<noteq> LF" "isTrailingSurrogate d \<Longrightarrow> d \<noteq> LF"
    by (auto simp: isLeadingSurrogate_def isTrailingSurrogate_def LF_def)
  then show ?case using 3 by (auto simp: QuoteUnit_no_LF)
qed

lemma QuoteJSONString_no_LF: "LF \<notin> set (QuoteJSONString s)"
  using QuoteUnits_no_LF[of s] by (simp add: QuoteJSONString_def LF_def)

lemma join_no_LF: "LF \<notin> set sep \<Longrightarrow> \<forall>x \<in> set xs. LF \<notin> set x \<Longrightarrow> LF \<notin> set (join sep xs)"
  by (induction sep xs rule: join.induct) auto

lemma numchar_unit_not_LF: "numchar_unit d \<noteq> LF"
  by (cases d) (simp_all add: LF_def)

lemma Serialize_no_LF:
  "(\<forall>t. SerializeJSONProperty v = Some t \<longrightarrow> LF \<notin> set t)"
  "(\<forall>t \<in> set (SerializeJSONElements xs). LF \<notin> set t)"
  "(\<forall>t \<in> set (SerializeJSONMembers ps). LF \<notin> set t)"
proof (induction v and xs and ps rule: SerializeJSONProperty_SerializeJSONElements_SerializeJSONMembers.induct)
  case 1
  then show ?case by simp
next
  case 2
  then show ?case by (simp add: str_def LF_def)
next
  case (3 b)
  then show ?case by (simp add: str_def LF_def)
next
  case (4 n)
  then show ?case by (cases n) (auto simp: str_def LF_def numchar_unit_not_LF[unfolded LF_def])
next
  case (5 s)
  then show ?case by (simp add: QuoteJSONString_no_LF)
next
  case (6 xs)
  have "LF \<notin> set (join (str '','') (SerializeJSONElements xs))"
    using 6 by (intro join_no_LF) (simp_all add: str_def LF_def)
  then show ?case by (simp add: str_def LF_def)
next
  case (7 ps)
  have "LF \<notin> set (join (str '','') (SerializeJSONMembers ps))"
    using 7 by (intro join_no_LF) (simp_all add: str_def LF_def)
  then show ?case by (simp add: str_def LF_def)
next
  case 8
  then show ?case by simp
next
  case (9 x xs)
  then show ?case by (auto simp: str_def LF_def split: option.splits)
next
  case 10
  then show ?case by simp
next
  case (11 kv ps)
  have "LF \<notin> set (str '':'')" by (simp add: str_def LF_def)
  then show ?case using 11 QuoteJSONString_no_LF[of "fst kv"] by (auto split: option.splits)
qed

lemma trim_eq_Nil: "trim s = [] \<longleftrightarrow> (\<forall>c \<in> set s. isWhiteSpace c)"
proof
  assume t: "trim s = []"
  show "\<forall>c \<in> set s. isWhiteSpace c"
  proof (rule ccontr)
    assume "\<not> (\<forall>c \<in> set s. isWhiteSpace c)"
    then have ne: "dropWhile isWhiteSpace s \<noteq> []" by (simp add: dropWhile_eq_Nil_conv)
    then have "\<not> isWhiteSpace (hd (dropWhile isWhiteSpace s))" by (rule hd_dropWhile)
    moreover have "hd (dropWhile isWhiteSpace s) \<in> set (rev (dropWhile isWhiteSpace s))"
      using ne by simp
    ultimately have "dropWhile isWhiteSpace (rev (dropWhile isWhiteSpace s)) \<noteq> []"
      by (metis dropWhile_eq_Nil_conv)
    then show False using t by (simp add: trim_def)
  qed
next
  assume "\<forall>c \<in> set s. isWhiteSpace c"
  then have d: "dropWhile isWhiteSpace s = []" by (simp add: dropWhile_eq_Nil_conv)
  show "trim s = []" unfolding trim_def d by simp
qed

lemma EventLine_object:
  "EventLine (JObject ps) = str ''{'' @ join (str '','') (SerializeJSONMembers ps) @ str ''}''"
  by (simp add: EventLine_def JSON_stringify_def)

lemma EventLine_is_line: "LF \<notin> set (EventLine (JObject ps)) \<and> trim (EventLine (JObject ps)) \<noteq> []"
proof -
  have "LF \<notin> set (EventLine (JObject ps))"
    using Serialize_no_LF(1)[of "JObject ps"] by (simp add: EventLine_def JSON_stringify_def)
  moreover have "0x7B \<in> set (EventLine (JObject ps))"
    by (simp add: EventLine_object str_def)
  moreover have "\<not> isWhiteSpace 0x7B" by (simp add: isWhiteSpace_def)
  ultimately show ?thesis by (auto simp: trim_eq_Nil)
qed

lemma join_LF_terminated:
  "ls \<noteq> [] \<Longrightarrow> join [LF] ls @ [LF] = concat (map (\<lambda>l. l @ [LF]) ls)"
  by (induction "[LF]" ls rule: join.induct) simp_all

lemma lines_of_joined:
  assumes "\<forall>l \<in> set ls. LF \<notin> set l \<and> trim l \<noteq> []"
  shows "complete_lines (join [LF] ls @ [LF]) = ls \<and> carry (join [LF] ls @ [LF]) = []"
proof (cases "ls = []")
  case True
  then show ?thesis by (simp add: complete_lines_def carry_def trim_def)
next
  case False
  have "\<forall>l \<in> set ls. LF \<notin> set l" using assms by simp
  then show ?thesis
    using assms by (simp add: join_LF_terminated[OF False] complete_terminated_lines carry_terminated_lines)
qed

lemma EventOf_is_line:
  "LF \<notin> set (EventLine (EventOf Msg)) \<and> trim (EventLine (EventOf Msg)) \<noteq> []"
  unfolding EventOf_def by (rule EventLine_is_line)

lemma MessagesAsNDJSON_lines:
  assumes "\<forall>Msg \<in> set Messages. \<not> nullish Msg"
  shows "\<exists>doc. MessagesAsNDJSON Messages = Inr doc
     \<and> complete_lines doc = map (\<lambda>Msg. EventLine (EventOf Msg))
          (filter (\<lambda>Msg. \<not> has_role ''system'' Msg) Messages)
     \<and> carry doc = []"
proof -
  let ?ls = "map (\<lambda>Msg. EventLine (EventOf Msg)) (filter (\<lambda>Msg. \<not> has_role ''system'' Msg) Messages)"
  have "\<forall>l \<in> set ?ls. LF \<notin> set l \<and> trim l \<noteq> []"
    using EventOf_is_line by auto
  then show ?thesis
    using lines_of_joined[of ?ls] MessagesAsNDJSON_total[OF assms] by simp
qed

lemma has_role_not_nullish: "has_role r Msg \<Longrightarrow> \<not> nullish Msg"
  by (cases Msg) (simp_all add: has_role_def Prop_def)


lemma Array_find_total:
  "\<forall>x \<in> set xs. p x = Inr (q x) \<Longrightarrow> Array_find p xs = Inr (List.find q xs)"
  by (induction xs) simp_all

lemma is_system_Prop: "\<not> nullish Msg \<Longrightarrow> is_system Msg = Inr (has_role ''system'' Msg)"
  by (simp add: is_system_def Get_Prop is_string_def has_role_def)

lemma is_text_block_Prop:
  "\<not> nullish Block \<Longrightarrow> is_text_block Block = Inr (Prop Block ''type'' = JString (str ''text''))"
  by (simp add: is_text_block_def Get_Prop is_string_def)

lemma Array_join_strings: "Array_join sep (map JString ts) = Inr (join sep ts)"
  by (induction sep ts rule: join.induct) simp_all

lemma extractedSystemPrompt_find:
  assumes "\<forall>Msg \<in> set Messages. \<not> nullish Msg"
  shows "extractedSystemPrompt Messages =
     (case List.find (has_role ''system'') Messages of
        None \<Rightarrow> Inr None
      | Some Msg \<Rightarrow>
          (case Prop Msg ''content'' of
             JString s \<Rightarrow> Inr (Some s)
           | JArray Blocks \<Rightarrow>
               andThen (Array_filter is_text_block Blocks) (\<lambda>TextBlocks.
               andThen (Array_map (\<lambda>Block. Get Block (str ''text'')) TextBlocks) (\<lambda>Texts.
               andThen (Array_join [LF] Texts) (\<lambda>r. Inr (Some r))))
           | _ \<Rightarrow> Inl TypeError))"
proof -
  have f: "Array_find is_system Messages = Inr (List.find (has_role ''system'') Messages)"
    using assms by (intro Array_find_total) (simp add: is_system_Prop)
  show ?thesis
  proof (cases "List.find (has_role ''system'') Messages")
    case None
    then show ?thesis by (simp add: extractedSystemPrompt_def f)
  next
    case (Some Msg)
    then have "Msg \<in> set Messages" by (auto simp: find_Some_iff)
    then have "\<not> nullish Msg" using assms by simp
    then show ?thesis by (simp add: extractedSystemPrompt_def f Some Get_Prop)
  qed
qed

lemma text_blocks_joined:
  assumes "\<forall>Block \<in> set Blocks. \<not> nullish Block
              \<and> (Prop Block ''type'' = JString (str ''text'') \<longrightarrow> has_string_text Block)"
  shows "andThen (Array_filter is_text_block Blocks) (\<lambda>TextBlocks.
         andThen (Array_map (\<lambda>Block. Get Block (str ''text'')) TextBlocks) (\<lambda>Texts.
         andThen (Array_join sep Texts) (\<lambda>r. Inr (Some r))))
       = Inr (Some (join sep (map text_of
           (filter (\<lambda>Block. Prop Block ''type'' = JString (str ''text'')) Blocks))))"
proof -
  let ?TBs = "filter (\<lambda>Block. Prop Block ''type'' = JString (str ''text'')) Blocks"
  have f: "Array_filter is_text_block Blocks = Inr ?TBs"
    using assms by (intro Array_filter_total) (simp add: is_text_block_Prop)
  have t: "\<forall>Block \<in> set ?TBs. Get Block (str ''text'') = Inr (JString (text_of Block))"
    using assms by (auto simp: Get_Prop has_string_text_def text_of_def split: jsvalue.splits)
  have m: "Array_map (\<lambda>Block. Get Block (str ''text'')) ?TBs = Inr (map (\<lambda>Block. JString (text_of Block)) ?TBs)"
    using t by (rule Array_map_total)
  have "map (\<lambda>Block. JString (text_of Block)) ?TBs = map JString (map text_of ?TBs)"
    by simp
  then show ?thesis
    by (simp only: f m andThen.simps Array_join_strings)
qed

lemma Message_Hi_line:
  \<open>EventLine (EventOf (Message ''user'' ''Hi'')) =
     str ''{"type":"user","message":{"role":"user","content":[{"type":"text","text":"Hi"}]}}''\<close>
  by (simp add: Message_def EventOf_def Prop_def normalizedContent_def EventLine_def JSON_stringify_def
        QuoteJSONString_def QuoteUnit_def isLeadingSurrogate_def isTrailingSurrogate_def str_def)

text \<open>
  C5. For a history of messages none of which is \<open>null\<close>, \<open>MessagesAsNDJSON\<close> returns a
  document whose lines are, in the original order, the serialised events of the messages
  whose role is not \<open>system\<close>, one line for each, with nothing after the last line feed;
  when every role is \<open>system\<close>, \<open>user\<close> or \<open>assistant\<close>, these are the messages with role
  \<open>user\<close> or \<open>assistant\<close>. The event of such a message with a string content has the
  role as its type and the content wrapped as a single text block. For the history
  \<open>[{role: "user", content: "Hi"}]\<close> the document is exactly the line given in the
  specification, followed by a line feed.
\<close>

theorem one_line_per_user_or_assistant_message:
  \<open>((\<forall>Msg \<in> set Messages. \<not> nullish Msg) \<longrightarrow>
      (\<exists>doc. MessagesAsNDJSON Messages = Inr doc
         \<and> complete_lines doc = map (\<lambda>Msg. EventLine (EventOf Msg))
              (filter (\<lambda>Msg. \<not> has_role ''system'' Msg) Messages)
         \<and> carry doc = []))
   \<and> ((\<forall>Msg \<in> set Messages. has_role ''system'' Msg \<or> has_role ''user'' Msg \<or> has_role ''assistant'' Msg) \<longrightarrow>
      (\<exists>doc. MessagesAsNDJSON Messages = Inr doc
         \<and> complete_lines doc = map (\<lambda>Msg. EventLine (EventOf Msg))
              (filter (\<lambda>Msg. has_role ''user'' Msg \<or> has_role ''assistant'' Msg) Messages)
         \<and> carry doc = []))
   \<and> ((has_role ''user'' Msg \<or> has_role ''assistant'' Msg) \<longrightarrow> Prop Msg ''content'' = JString s \<longrightarrow>
        AgentEvent Msg = Inr (EventOf Msg)
        \<and> EventOf Msg =
            JObject [(str ''type'', Prop Msg ''role''),
                     (str ''message'',
                        JObject [(str ''role'', Prop Msg ''role''),
                                 (str ''content'', JArray [TextBlock s])])])
   \<and> MessagesAsNDJSON [Message ''user'' ''Hi''] =
        Inr (str ''{"type":"user","message":{"role":"user","content":[{"type":"text","text":"Hi"}]}}'' @ [LF])\<close>
proof -
  have 1: "\<exists>doc. MessagesAsNDJSON Messages = Inr doc
         \<and> complete_lines doc = map (\<lambda>Msg. EventLine (EventOf Msg))
              (filter (\<lambda>Msg. \<not> has_role ''system'' Msg) Messages)
         \<and> carry doc = []"
    if "\<forall>Msg \<in> set Messages. \<not> nullish Msg"
    using that by (rule MessagesAsNDJSON_lines)
  have 2: "\<exists>doc. MessagesAsNDJSON Messages = Inr doc
         \<and> complete_lines doc = map (\<lambda>Msg. EventLine (EventOf Msg))
              (filter (\<lambda>Msg. has_role ''user'' Msg \<or> has_role ''assistant'' Msg) Messages)
         \<and> carry doc = []"
    if r: "\<forall>Msg \<in> set Messages. has_role ''system'' Msg \<or> has_role ''user'' Msg \<or> has_role ''assistant'' Msg"
  proof -
    have n: "\<forall>Msg \<in> set Messages. \<not> nullish Msg"
      using r has_role_not_nullish by blast
    have "str ''system'' \<noteq> str ''user''" "str ''system'' \<noteq> str ''assistant''"
      by (simp_all add: str_def)
    then have "\<forall>Msg \<in> set Messages.
        (\<not> has_role ''system'' Msg) = (has_role ''user'' Msg \<or> has_role ''assistant'' Msg)"
      using r by (auto simp: has_role_def)
    then have "filter (\<lambda>Msg. \<not> has_role ''system'' Msg) Messages =
        filter (\<lambda>Msg. has_role ''user'' Msg \<or> has_role ''assistant'' Msg) Messages"
      by (intro filter_cong) simp_all
    then show ?thesis using MessagesAsNDJSON_lines[OF n] by simp
  qed
  have 3: "AgentEvent Msg = Inr (EventOf Msg)
        \<and> EventOf Msg =
            JObject [(str ''type'', Prop Msg ''role''),
                     (str ''message'',
                        JObject [(str ''role'', Prop Msg ''role''),
                                 (str ''content'', JArray [TextBlock s])])]"
    if "has_role ''user'' Msg \<or> has_role ''assistant'' Msg" "Prop Msg ''content'' = JString s"
  proof -
    have "\<not> nullish Msg" using that(1) has_role_not_nullish by blast
    moreover have "str ''assistant'' \<noteq> str ''user''" by (simp add: str_def)
    ultimately show ?thesis
      using that by (auto simp: AgentEvent_EventOf EventOf_def has_role_def normalizedContent_def TextBlock_def)
  qed
  have "\<not> nullish (Message ''user'' ''Hi'')" "\<not> has_role ''system'' (Message ''user'' ''Hi'')"
    by (simp_all add: Message_def has_role_def Prop_def str_def)
  then have 4: "MessagesAsNDJSON [Message ''user'' ''Hi''] = Inr (EventLine (EventOf (Message ''user'' ''Hi'')) @ [LF])"
    using MessagesAsNDJSON_total[of "[Message ''user'' ''Hi'']"] by simp
  show ?thesis
    using 1 2 3 4 unfolding Message_Hi_line by blast
qed

theorem one_line_per_user_or_assistant_message_witness:
  \<open>\<not> nullish (Message ''system'' ''Be brief'') \<and> \<not> nullish (Message ''user'' ''Hi'')
   \<and> has_role ''system'' (Message ''system'' ''Be brief'') \<and> has_role ''user'' (Message ''user'' ''Hi'')
   \<and> Prop (Message ''user'' ''Hi'') ''content'' = JString (str ''Hi'')
   \<and> MessagesAsNDJSON [Message ''system'' ''Be brief'', Message ''user'' ''Hi''] =
        Inr (str ''{"type":"user","message":{"role":"user","content":[{"type":"text","text":"Hi"}]}}'' @ [LF])
   \<and> complete_lines
        (str ''{"type":"user","message":{"role":"user","content":[{"type":"text","text":"Hi"}]}}'' @ [LF])
       = [str ''{"type":"user","message":{"role":"user","content":[{"type":"text","text":"Hi"}]}}'']
   \<and> AgentEvent (Message ''user'' ''Hi'') =
        Inr (JObject [(str ''type'', JString (str ''user'')),
                      (str ''message'',
                         JObject [(str ''role'', JString (str ''user'')),
                                  (str ''content'', JArray [TextBlock (str ''Hi'')])])])\<close>
proof -
  let ?Ms = "[Message ''system'' ''Be brief'', Message ''user'' ''Hi'']"
  have n: "\<not> nullish (Message ''system'' ''Be brief'')" "\<not> nullish (Message ''user'' ''Hi'')"
    by (simp_all add: Message_def)
  have r: "has_role ''system'' (Message ''system'' ''Be brief'')" "has_role ''user'' (Message ''user'' ''Hi'')"
    by (simp_all add: Message_def has_role_def Prop_def str_def)
  have u: "\<not> has_role ''system'' (Message ''user'' ''Hi'')"
    by (simp add: Message_def has_role_def Prop_def str_def)
  have c: "Prop (Message ''user'' ''Hi'') ''content'' = JString (str ''Hi'')"
    by (simp add: Message_def Prop_def str_def)
  have p: "Prop (Message ''user'' ''Hi'') ''role'' = JString (str ''user'')"
    using r(2) by (simp add: has_role_def)
  note th = one_line_per_user_or_assistant_message[of ?Ms "Message ''user'' ''Hi''" "str ''Hi''"]
  have "\<forall>Msg \<in> set ?Ms. has_role ''system'' Msg \<or> has_role ''user'' Msg \<or> has_role ''assistant'' Msg"
    using r by simp
  then obtain doc where d: "MessagesAsNDJSON ?Ms = Inr doc"
    and l: "complete_lines doc = map (\<lambda>Msg. EventLine (EventOf Msg))
              (filter (\<lambda>Msg. has_role ''user'' Msg \<or> has_role ''assistant'' Msg) ?Ms)"
    using th by blast
  have "MessagesAsNDJSON ?Ms = Inr (EventLine (EventOf (Message ''user'' ''Hi'')) @ [LF])"
    using MessagesAsNDJSON_total[of ?Ms] n r u by simp
  then have d': "doc = EventLine (EventOf (Message ''user'' ''Hi'')) @ [LF]"
    using d by simp
  have nr: "\<not> has_role ''user'' (Message ''system'' ''Be brief'')"
    "\<not> has_role ''assistant'' (Message ''system'' ''Be brief'')"
    by (simp_all add: Message_def has_role_def Prop_def str_def)
  have l': "complete_lines doc = [EventLine (EventOf (Message ''user'' ''Hi''))]"
    using l r nr by simp
  have e: "AgentEvent (Message ''user'' ''Hi'') =
        Inr (JObject [(str ''type'', JString (str ''user'')),
                      (str ''message'',
                         JObject [(str ''role'', JString (str ''user'')),
                                  (str ''content'', JArray [TextBlock (str ''Hi'')])])])"
    using th r(2) c p by simp
  show ?thesis
    using n r c d l' e unfolding d' Message_Hi_line by simp
qed

text \<open>
  C6. For a history in which every message has the role \<open>system\<close>, the document is the
  single line feed that \<open>MessagesAsNDJSON\<close> always appends: it has no event line, and
  nothing but that line feed.
\<close>

theorem only_system_messages_give_no_event:
  "(\<forall>Msg \<in> set Messages. has_role ''system'' Msg) \<longrightarrow>
     MessagesAsNDJSON Messages = Inr [LF] \<and> complete_lines [LF] = [] \<and> carry [LF] = []"
proof
  assume r: "\<forall>Msg \<in> set Messages. has_role ''system'' Msg"
  then have n: "\<forall>Msg \<in> set Messages. \<not> nullish Msg"
    using has_role_not_nullish by blast
  have "filter (\<lambda>Msg. \<not> has_role ''system'' Msg) Messages = []"
    using r by (simp add: filter_empty_conv)
  then have "MessagesAsNDJSON Messages = Inr [LF]"
    using MessagesAsNDJSON_total[OF n] by simp
  moreover have "complete_lines [LF] = [] \<and> carry [LF] = []"
    using lines_of_joined[of "[]"] by simp
  ultimately show "MessagesAsNDJSON Messages = Inr [LF] \<and> complete_lines [LF] = [] \<and> carry [LF] = []"
    by simp
qed

theorem only_system_messages_give_no_event_witness:
  "has_role ''system'' (Message ''system'' ''Be brief'')
   \<and> MessagesAsNDJSON [Message ''system'' ''Be brief''] = Inr [LF]
   \<and> complete_lines [LF] = []"
proof -
  have r: "has_role ''system'' (Message ''system'' ''Be brief'')"
    by (simp add: Message_def has_role_def Prop_def str_def)
  then show ?thesis
    using only_system_messages_give_no_event[of "[Message ''system'' ''Be brief'']"] by simp
qed

lemma Message_tool_line:
  \<open>EventLine (EventOf (Message ''tool'' ''42'')) =
     str ''{"type":"assistant","message":{"role":"tool","content":[{"type":"text","text":"42"}]}}''\<close>
  by (simp add: Message_def EventOf_def Prop_def normalizedContent_def EventLine_def JSON_stringify_def
        QuoteJSONString_def QuoteUnit_def isLeadingSurrogate_def isTrailingSurrogate_def str_def)

text \<open>
  C10. In a history without \<open>null\<close> entries, a message whose role is neither \<open>system\<close>
  nor \<open>user\<close> (a role such as \<open>tool\<close>, or none at all) is neither dropped nor rejected:
  its event has the type \<open>assistant\<close> and carries the message's own role value in
  \<open>message.role\<close>, and the line of that event is in the document.
\<close>

theorem other_roles_become_assistant_events:
  "(\<forall>M \<in> set Messages. \<not> nullish M) \<longrightarrow> Msg \<in> set Messages \<longrightarrow>
   \<not> has_role ''system'' Msg \<longrightarrow> \<not> has_role ''user'' Msg \<longrightarrow>
     AgentEvent Msg =
       Inr (JObject [(str ''type'', JString (str ''assistant'')),
                     (str ''message'',
                        JObject [(str ''role'', Prop Msg ''role''),
                                 (str ''content'', normalizedContent (Prop Msg ''content''))])])
     \<and> (\<exists>doc. MessagesAsNDJSON Messages = Inr doc
          \<and> EventLine (JObject [(str ''type'', JString (str ''assistant'')),
                     (str ''message'',
                        JObject [(str ''role'', Prop Msg ''role''),
                                 (str ''content'', normalizedContent (Prop Msg ''content''))])])
              \<in> set (complete_lines doc))"
proof (intro impI)
  assume n: "\<forall>M \<in> set Messages. \<not> nullish M" and m: "Msg \<in> set Messages"
    and s: "\<not> has_role ''system'' Msg" and u: "\<not> has_role ''user'' Msg"
  let ?E = "JObject [(str ''type'', JString (str ''assistant'')),
                     (str ''message'',
                        JObject [(str ''role'', Prop Msg ''role''),
                                 (str ''content'', normalizedContent (Prop Msg ''content''))])]"
  have e: "EventOf Msg = ?E"
    using u by (simp add: EventOf_def has_role_def)
  have a: "AgentEvent Msg = Inr ?E"
    using n m e by (simp add: AgentEvent_EventOf)
  obtain doc where d: "MessagesAsNDJSON Messages = Inr doc"
    and l: "complete_lines doc = map (\<lambda>Msg. EventLine (EventOf Msg))
              (filter (\<lambda>Msg. \<not> has_role ''system'' Msg) Messages)"
    using MessagesAsNDJSON_lines[OF n] by blast
  have "EventLine (EventOf Msg) \<in> set (complete_lines doc)"
    using m s by (simp add: l)
  then show "AgentEvent Msg = Inr ?E \<and> (\<exists>doc. MessagesAsNDJSON Messages = Inr doc \<and> EventLine ?E \<in> set (complete_lines doc))"
    using a d e by auto
qed

theorem other_roles_become_assistant_events_witness:
  \<open>\<not> nullish (Message ''user'' ''Hi'') \<and> \<not> nullish (Message ''tool'' ''42'')
   \<and> \<not> has_role ''system'' (Message ''tool'' ''42'') \<and> \<not> has_role ''user'' (Message ''tool'' ''42'')
   \<and> AgentEvent (Message ''tool'' ''42'') =
       Inr (JObject [(str ''type'', JString (str ''assistant'')),
                     (str ''message'',
                        JObject [(str ''role'', JString (str ''tool'')),
                                 (str ''content'', JArray [TextBlock (str ''42'')])])])
   \<and> MessagesAsNDJSON [Message ''user'' ''Hi'', Message ''tool'' ''42''] =
       Inr (str ''{"type":"user","message":{"role":"user","content":[{"type":"text","text":"Hi"}]}}'' @ [LF]
          @ str ''{"type":"assistant","message":{"role":"tool","content":[{"type":"text","text":"42"}]}}'' @ [LF])\<close>
proof -
  let ?Ms = "[Message ''user'' ''Hi'', Message ''tool'' ''42'']"
  have n: "\<not> nullish (Message ''user'' ''Hi'')" "\<not> nullish (Message ''tool'' ''42'')"
    by (simp_all add: Message_def)
  have r: "\<not> has_role ''system'' (Message ''tool'' ''42'')" "\<not> has_role ''user'' (Message ''tool'' ''42'')"
    "\<not> has_role ''system'' (Message ''user'' ''Hi'')"
    by (simp_all add: Message_def has_role_def Prop_def str_def)
  have p: "Prop (Message ''tool'' ''42'') ''role'' = JString (str ''tool'')"
    "normalizedContent (Prop (Message ''tool'' ''42'') ''content'') = JArray [TextBlock (str ''42'')]"
    by (simp_all add: Message_def Prop_def str_def normalizedContent_def TextBlock_def)
  have "AgentEvent (Message ''tool'' ''42'') =
       Inr (JObject [(str ''type'', JString (str ''assistant'')),
                     (str ''message'',
                        JObject [(str ''role'', Prop (Message ''tool'' ''42'') ''role''),
                                 (str ''content'', normalizedContent (Prop (Message ''tool'' ''42'') ''content''))])])"
    using other_roles_become_assistant_events[of ?Ms "Message ''tool'' ''42''"] n r by simp
  then have e: "AgentEvent (Message ''tool'' ''42'') =
       Inr (JObject [(str ''type'', JString (str ''assistant'')),
                     (str ''message'',
                        JObject [(str ''role'', JString (str ''tool'')),
                                 (str ''content'', JArray [TextBlock (str ''42'')])])])"
    by (simp only: p)
  have "MessagesAsNDJSON ?Ms =
      Inr (EventLine (EventOf (Message ''user'' ''Hi'')) @ [LF] @ EventLine (EventOf (Message ''tool'' ''42'')) @ [LF])"
    using MessagesAsNDJSON_total[of ?Ms] n r by simp
  then show ?thesis
    using n r e unfolding Message_Hi_line Message_tool_line by simp
qed

lemma andThen_Some_not_None:
  "andThen x (\<lambda>a. andThen (f a) (\<lambda>b. andThen (g b) (\<lambda>r. Inr (Some r)))) \<noteq> Inr None"
proof (cases x)
  case (Inl e)
  then show ?thesis by simp
next
  case (Inr a)
  show ?thesis
  proof (cases "f a")
    case (Inl e)
    then show ?thesis using Inr by simp
  next
    case fa: (Inr b)
    show ?thesis using Inr fa by (cases "g b") simp_all
  qed
qed

text \<open>
  C7. For a history without \<open>null\<close> entries, the extracted system prompt is absent
  exactly when no message has the role \<open>system\<close>. Otherwise it is taken from the first
  message with that role: a string content is returned as it is; a content that is a
  sequence of blocks gives the \<open>text\<close> strings of its text blocks, in order, joined by
  line feeds, the other blocks being dropped.
\<close>

theorem extractedSystemPrompt_first_system_message:
  "(\<forall>M \<in> set Messages. \<not> nullish M) \<longrightarrow>
     ((extractedSystemPrompt Messages = Inr None) = (\<forall>M \<in> set Messages. \<not> has_role ''system'' M))
   \<and> (List.find (has_role ''system'') Messages = Some Msg \<longrightarrow>
        (Prop Msg ''content'' = JString s \<longrightarrow> extractedSystemPrompt Messages = Inr (Some s))
      \<and> (Prop Msg ''content'' = JArray Blocks \<longrightarrow>
          (\<forall>Block \<in> set Blocks. \<not> nullish Block
              \<and> (Prop Block ''type'' = JString (str ''text'') \<longrightarrow> has_string_text Block)) \<longrightarrow>
          extractedSystemPrompt Messages =
            Inr (Some (join [LF] (map text_of
              (filter (\<lambda>Block. Prop Block ''type'' = JString (str ''text'')) Blocks))))))"
proof
  assume n: "\<forall>M \<in> set Messages. \<not> nullish M"
  note f = extractedSystemPrompt_find[OF n]
  have a: "(extractedSystemPrompt Messages = Inr None) = (\<forall>M \<in> set Messages. \<not> has_role ''system'' M)"
  proof (cases "List.find (has_role ''system'') Messages")
    case None
    then have "\<forall>M \<in> set Messages. \<not> has_role ''system'' M"
      by (simp add: find_None_iff)
    moreover have "extractedSystemPrompt Messages = Inr None"
      by (simp add: f None)
    ultimately show ?thesis by simp
  next
    case (Some M)
    then have "\<not> (\<forall>M \<in> set Messages. \<not> has_role ''system'' M)"
      by (metis find_None_iff option.distinct(1))
    moreover have "extractedSystemPrompt Messages \<noteq> Inr None"
      by (cases "Prop M ''content''") (simp_all add: f Some andThen_Some_not_None)
    ultimately show ?thesis by simp
  qed
  have b: "extractedSystemPrompt Messages = Inr (Some s)"
    if "List.find (has_role ''system'') Messages = Some Msg" "Prop Msg ''content'' = JString s"
    using that by (simp add: f)
  have c: "extractedSystemPrompt Messages =
            Inr (Some (join [LF] (map text_of
              (filter (\<lambda>Block. Prop Block ''type'' = JString (str ''text'')) Blocks))))"
    if "List.find (has_role ''system'') Messages = Some Msg" "Prop Msg ''content'' = JArray Blocks"
      "\<forall>Block \<in> set Blocks. \<not> nullish Block
              \<and> (Prop Block ''type'' = JString (str ''text'') \<longrightarrow> has_string_text Block)"
    using that(1,2) text_blocks_joined[OF that(3), of "[LF]"] by (simp add: f)
  show "((extractedSystemPrompt Messages = Inr None) = (\<forall>M \<in> set Messages. \<not> has_role ''system'' M))
   \<and> (List.find (has_role ''system'') Messages = Some Msg \<longrightarrow>
        (Prop Msg ''content'' = JString s \<longrightarrow> extractedSystemPrompt Messages = Inr (Some s))
      \<and> (Prop Msg ''content'' = JArray Blocks \<longrightarrow>
          (\<forall>Block \<in> set Blocks. \<not> nullish Block
              \<and> (Prop Block ''type'' = JString (str ''text'') \<longrightarrow> has_string_text Block)) \<longrightarrow>
          extractedSystemPrompt Messages =
            Inr (Some (join [LF] (map text_of
              (filter (\<lambda>Block. Prop Block ''type'' = JString (str ''text'')) Blocks))))))"
    using a b c by blast
qed

theorem extractedSystemPrompt_first_system_message_witness:
  "\<not> nullish (Message ''user'' ''Hi'') \<and> \<not> nullish SystemBlocksMessage
   \<and> \<not> nullish (Message ''system'' ''Be brief'')
   \<and> extractedSystemPrompt [Message ''user'' ''Hi''] = Inr None
   \<and> List.find (has_role ''system'') [Message ''user'' ''Hi'', Message ''system'' ''Be brief'', SystemBlocksMessage]
       = Some (Message ''system'' ''Be brief'')
   \<and> extractedSystemPrompt [Message ''user'' ''Hi'', Message ''system'' ''Be brief'', SystemBlocksMessage]
       = Inr (Some (str ''Be brief''))
   \<and> List.find (has_role ''system'') [Message ''user'' ''Hi'', SystemBlocksMessage] = Some SystemBlocksMessage
   \<and> Prop SystemBlocksMessage ''content'' = JArray [TextBlock (str ''Be brief''), ImageBlock, TextBlock (str ''Be kind'')]
   \<and> has_string_text (TextBlock (str ''Be brief'')) \<and> has_string_text (TextBlock (str ''Be kind''))
   \<and> Prop ImageBlock ''type'' \<noteq> JString (str ''text'')
   \<and> extractedSystemPrompt [Message ''user'' ''Hi'', SystemBlocksMessage]
       = Inr (Some (str ''Be brief'' @ [LF] @ str ''Be kind''))"
proof -
  have n: "\<not> nullish (Message ''user'' ''Hi'')" "\<not> nullish SystemBlocksMessage"
    "\<not> nullish (Message ''system'' ''Be brief'')"
    by (simp_all add: Message_def SystemBlocksMessage_def)
  have r: "\<not> has_role ''system'' (Message ''user'' ''Hi'')" "has_role ''system'' SystemBlocksMessage"
    "has_role ''system'' (Message ''system'' ''Be brief'')"
    by (simp_all add: Message_def SystemBlocksMessage_def has_role_def Prop_def str_def)
  have 1: "extractedSystemPrompt [Message ''user'' ''Hi''] = Inr None"
    using extractedSystemPrompt_first_system_message[of "[Message ''user'' ''Hi'']"] n r by simp
  have f2: "List.find (has_role ''system'') [Message ''user'' ''Hi'', Message ''system'' ''Be brief'', SystemBlocksMessage]
       = Some (Message ''system'' ''Be brief'')"
    using r by simp
  have c2: "Prop (Message ''system'' ''Be brief'') ''content'' = JString (str ''Be brief'')"
    by (simp add: Message_def Prop_def str_def)
  have 2: "extractedSystemPrompt [Message ''user'' ''Hi'', Message ''system'' ''Be brief'', SystemBlocksMessage]
       = Inr (Some (str ''Be brief''))"
    using extractedSystemPrompt_first_system_message[of
        "[Message ''user'' ''Hi'', Message ''system'' ''Be brief'', SystemBlocksMessage]"
        "Message ''system'' ''Be brief''" "str ''Be brief''"] n f2 c2
    by simp
  have f3: "List.find (has_role ''system'') [Message ''user'' ''Hi'', SystemBlocksMessage] = Some SystemBlocksMessage"
    using r by simp
  have c3: "Prop SystemBlocksMessage ''content'' = JArray [TextBlock (str ''Be brief''), ImageBlock, TextBlock (str ''Be kind'')]"
    by (simp add: SystemBlocksMessage_def Prop_def str_def)
  have t: "Prop (TextBlock (str ''Be brief'')) ''type'' = JString (str ''text'')"
    "Prop (TextBlock (str ''Be kind'')) ''type'' = JString (str ''text'')"
    "Prop ImageBlock ''type'' \<noteq> JString (str ''text'')"
    by (simp_all add: TextBlock_def ImageBlock_def Prop_def str_def)
  have h: "has_string_text (TextBlock (str ''Be brief''))" "has_string_text (TextBlock (str ''Be kind''))"
    by (simp_all add: TextBlock_def has_string_text_def Prop_def str_def)
  have x: "text_of (TextBlock (str ''Be brief'')) = str ''Be brief''"
    "text_of (TextBlock (str ''Be kind'')) = str ''Be kind''"
    by (simp_all add: TextBlock_def text_of_def Prop_def str_def)
  have b: "\<forall>Block \<in> set [TextBlock (str ''Be brief''), ImageBlock, TextBlock (str ''Be kind'')].
      \<not> nullish Block \<and> (Prop Block ''type'' = JString (str ''text'') \<longrightarrow> has_string_text Block)"
    using t h by (simp add: TextBlock_def ImageBlock_def)
  have "extractedSystemPrompt [Message ''user'' ''Hi'', SystemBlocksMessage] =
      Inr (Some (join [LF] (map text_of
              (filter (\<lambda>Block. Prop Block ''type'' = JString (str ''text''))
                 [TextBlock (str ''Be brief''), ImageBlock, TextBlock (str ''Be kind'')]))))"
    using extractedSystemPrompt_first_system_message[of "[Message ''user'' ''Hi'', SystemBlocksMessage]"
        SystemBlocksMessage "[]" "[TextBlock (str ''Be brief''), ImageBlock, TextBlock (str ''Be kind'')]"]
      n f3 c3 b
    by simp
  then have 3: "extractedSystemPrompt [Message ''user'' ''Hi'', SystemBlocksMessage]
       = Inr (Some (str ''Be brief'' @ [LF] @ str ''Be kind''))"
    using t x by simp
  show ?thesis
    using n 1 f2 2 f3 c3 h t(3) 3 by simp
qed

section \<open>The process session\<close>

lemma run_data_session:
  "\<forall>e \<in> set events. is_data e \<Longrightarrow>
   run (ResponseFromClaudeCode parse Used) st events =
     st\<lparr>StdErr := StdErr st @ concat (map Buffer_toString (stderr_chunks events)),
        StdOut := StdOut st @ concat (map Buffer_toString (stdout_chunks events))\<rparr>"
proof (induction events arbitrary: st)
  case Nil
  then show ?case by (simp add: run_def)
next
  case (Cons e es)
  then have ih: "run (ResponseFromClaudeCode parse Used) (ResponseFromClaudeCode parse Used st e) es =
     (ResponseFromClaudeCode parse Used st e)
       \<lparr>StdErr := StdErr (ResponseFromClaudeCode parse Used st e) @ concat (map Buffer_toString (stderr_chunks es)),
        StdOut := StdOut (ResponseFromClaudeCode parse Used st e) @ concat (map Buffer_toString (stdout_chunks es))\<rparr>"
    by simp
  have d: "is_data e" using Cons.prems by simp
  have "run (ResponseFromClaudeCode parse Used) st (e # es) =
      run (ResponseFromClaudeCode parse Used) (ResponseFromClaudeCode parse Used st e) es"
    by (simp add: run_def)
  then show ?case using d ih by (cases e) simp_all
qed

lemma run_data_streaming:
  "\<forall>e \<in> set events. is_data e \<Longrightarrow>
   run (ResponseFromClaudeCodeStreaming parse Used) st events =
     st\<lparr>StdErr := StdErr st @ concat (map Buffer_toString (stderr_chunks events)),
        Decoder := feed parse (Decoder st) (stdout_chunks events)\<rparr>"
proof (induction events arbitrary: st)
  case Nil
  then show ?case by (simp add: run_def feed_def)
next
  case (Cons e es)
  let ?st1 = "ResponseFromClaudeCodeStreaming parse Used st e"
  have ih: "run (ResponseFromClaudeCodeStreaming parse Used) ?st1 es =
     ?st1\<lparr>StdErr := StdErr ?st1 @ concat (map Buffer_toString (stderr_chunks es)),
        Decoder := feed parse (Decoder ?st1) (stdout_chunks es)\<rparr>"
    using Cons by simp
  have d: "is_data e" using Cons.prems by simp
  have "run (ResponseFromClaudeCodeStreaming parse Used) st (e # es) =
      run (ResponseFromClaudeCodeStreaming parse Used) ?st1 es"
    by (simp add: run_def)
  then show ?case using d ih by (cases e) (simp_all add: feed_def)
qed

lemma run_append: "run handler st (es @ fs) = run handler (run handler st es) fs"
  by (simp add: run_def)

lemma UsedSessionId_cases:
  "UsedSessionId Given uuid = (if Given = JUndefined \<or> Given = JNull then JString uuid else Given)"
  by (cases Given) (simp_all add: UsedSessionId_def)

lemma session_texts:
  "StdOut (run (ResponseFromClaudeCode parse Used) st events)
     = StdOut st @ concat (map Buffer_toString (stdout_chunks events))
   \<and> StdErr (run (ResponseFromClaudeCode parse Used) st events)
     = StdErr st @ concat (map Buffer_toString (stderr_chunks events))"
proof (induction events arbitrary: st)
  case Nil
  then show ?case by (simp add: run_def)
next
  case (Cons e es)
  let ?st1 = "ResponseFromClaudeCode parse Used st e"
  have r: "run (ResponseFromClaudeCode parse Used) st (e # es) = run (ResponseFromClaudeCode parse Used) ?st1 es"
    by (simp add: run_def)
  have "StdOut ?st1 @ concat (map Buffer_toString (stdout_chunks es))
          = StdOut st @ concat (map Buffer_toString (stdout_chunks (e # es)))
      \<and> StdErr ?st1 @ concat (map Buffer_toString (stderr_chunks es))
          = StdErr st @ concat (map Buffer_toString (stderr_chunks (e # es)))"
    by (cases e) (simp_all add: onTimer_def logStdErr_def clearTimeout_def onError_def Let_def
          split: option.splits)
  then show ?case using Cons.IH[of ?st1] by (simp only: r)
qed

lemma streaming_texts:
  "Decoder (run (ResponseFromClaudeCodeStreaming parse Used) st events)
     = feed parse (Decoder st) (stdout_chunks events)
   \<and> StdErr (run (ResponseFromClaudeCodeStreaming parse Used) st events)
     = StdErr st @ concat (map Buffer_toString (stderr_chunks events))"
proof (induction events arbitrary: st)
  case Nil
  then show ?case by (simp add: run_def feed_def)
next
  case (Cons e es)
  let ?st1 = "ResponseFromClaudeCodeStreaming parse Used st e"
  have r: "run (ResponseFromClaudeCodeStreaming parse Used) st (e # es)
      = run (ResponseFromClaudeCodeStreaming parse Used) ?st1 es"
    by (simp add: run_def)
  have "feed parse (Decoder ?st1) (stdout_chunks es) = feed parse (Decoder st) (stdout_chunks (e # es))
      \<and> StdErr ?st1 @ concat (map Buffer_toString (stderr_chunks es))
          = StdErr st @ concat (map Buffer_toString (stderr_chunks (e # es)))"
    by (cases e) (simp_all add: feed_def onTimer_def logStdErr_def clearTimeout_def onError_def Let_def
          split: option.splits)
  then show ?case using Cons.IH[of ?st1] by (simp only: r)
qed

lemma close_session:
  "Outcome (ResponseFromClaudeCode parse Used st (Close Code)) =
     settle (Outcome st)
       (if Code \<noteq> Some 0 then Rejected (exit_error Code (StdErr st))
        else Resolved \<lparr>Text = TextExtractedFromStreamJSON parse (StdOut st), SessionId = Used\<rparr>)"
  by (simp add: logStdErr_def clearTimeout_def Let_def)

lemma close_streaming:
  "Outcome (ResponseFromClaudeCodeStreaming parse Used st (Close Code)) =
     settle (Outcome st)
       (if Code \<noteq> Some 0 then Rejected (exit_error Code (StdErr st)) else Resolved Used)
   \<and> Decoder (ResponseFromClaudeCodeStreaming parse Used st (Close Code)) = Decoder st"
  by (simp add: logStdErr_def clearTimeout_def Let_def)

lemma feed_init_accept:
  "feed parse decoder_init Chunks =
     (foldl accept decoder_init (AssistantTexts parse (complete_lines (concat (map Buffer_toString Chunks)))))
       \<lparr>LineBuffer := carry (concat (map Buffer_toString Chunks))\<rparr>"
  using feed_lines[of decoder_init parse Chunks]
  by (simp add: foldl_onLine_texts) (simp add: decoder_init_def)

lemma close_settles_general:
  "Outcome (run (ResponseFromClaudeCode parse Used) session_init (events @ [Close Code])) =
     settle (Outcome (run (ResponseFromClaudeCode parse Used) session_init events))
       (if Code \<noteq> Some 0
        then Rejected (Error (str ''claude exited with code '' @ Code_toString Code @ str '': ''
                               @ trim (concat (map Buffer_toString (stderr_chunks events)))))
        else Resolved
               \<lparr>Text = last ([] # AssistantTexts parse
                          (filter (\<lambda>Line. trim Line \<noteq> [])
                             (split_LF (concat (map Buffer_toString (stdout_chunks events)))))),
                SessionId = Used\<rparr>)
   \<and> Outcome (run (ResponseFromClaudeCodeStreaming parse Used) streaming_init (events @ [Close Code])) =
     settle (Outcome (run (ResponseFromClaudeCodeStreaming parse Used) streaming_init events))
       (if Code \<noteq> Some 0
        then Rejected (Error (str ''claude exited with code '' @ Code_toString Code @ str '': ''
                               @ trim (concat (map Buffer_toString (stderr_chunks events)))))
        else Resolved Used)
   \<and> Tokens (Decoder (run (ResponseFromClaudeCodeStreaming parse Used) streaming_init
             (events @ [Close Code]))) =
     Tokens (foldl accept decoder_init
        (AssistantTexts parse (complete_lines (concat (map Buffer_toString (stdout_chunks events))))))"
proof -
  let ?H = "ResponseFromClaudeCode parse Used" and ?S = "ResponseFromClaudeCodeStreaming parse Used"
  have i: "StdOut session_init = []" "StdErr session_init = []" "StdErr streaming_init = []"
    "Decoder streaming_init = decoder_init"
    by (simp_all add: session_init_def streaming_init_def)
  have ra: "run ?H session_init (events @ [Close Code]) = ?H (run ?H session_init events) (Close Code)"
    and rb: "run ?S streaming_init (events @ [Close Code]) = ?S (run ?S streaming_init events) (Close Code)"
    by (simp_all add: run_def)
  note a = session_texts[of parse Used session_init events]
  note b = streaming_texts[of parse Used streaming_init events]
  note c = close_streaming[of parse Used "run ?S streaming_init events" Code]
  have 1: "Outcome (run ?H session_init (events @ [Close Code])) =
     settle (Outcome (run ?H session_init events))
       (if Code \<noteq> Some 0
        then Rejected (Error (str ''claude exited with code '' @ Code_toString Code @ str '': ''
                               @ trim (concat (map Buffer_toString (stderr_chunks events)))))
        else Resolved
               \<lparr>Text = last ([] # AssistantTexts parse
                          (filter (\<lambda>Line. trim Line \<noteq> [])
                             (split_LF (concat (map Buffer_toString (stdout_chunks events)))))),
                SessionId = Used\<rparr>)"
    unfolding ra close_session
    using a by (simp add: i exit_error_def TextExtractedFromStreamJSON_def foldl_LastAssistantText)
  have 2: "Outcome (run ?S streaming_init (events @ [Close Code])) =
     settle (Outcome (run ?S streaming_init events))
       (if Code \<noteq> Some 0
        then Rejected (Error (str ''claude exited with code '' @ Code_toString Code @ str '': ''
                               @ trim (concat (map Buffer_toString (stderr_chunks events)))))
        else Resolved Used)"
    unfolding rb using b c by (simp add: i exit_error_def)
  have "Decoder (run ?S streaming_init (events @ [Close Code])) = feed parse decoder_init (stdout_chunks events)"
    unfolding rb using b c by (simp add: i)
  then have 3: "Tokens (Decoder (run ?S streaming_init (events @ [Close Code]))) =
     Tokens (foldl accept decoder_init
        (AssistantTexts parse (complete_lines (concat (map Buffer_toString (stdout_chunks events))))))"
    by (simp add: feed_init_accept)
  show ?thesis using 1 2 3 by blast
qed

lemma pending_after_data:
  assumes "\<forall>e \<in> set events. is_data e"
  shows "Outcome (run (ResponseFromClaudeCode parse Used) session_init events) = Pending
     \<and> Outcome (run (ResponseFromClaudeCodeStreaming parse Used) streaming_init events) = Pending"
  by (simp add: run_data_session[OF assms] run_data_streaming[OF assms] session_init_def streaming_init_def)

text \<open>
  C8, as amended. In every run, the \<open>close\<close> event settles the promise only while it is
  still pending, as it is when nothing but chunks of output and of diagnostics came
  before; a rejection by the timer or by the \<open>error\<close> event stands. Settling, an exit
  code other than zero (or none) rejects with the error whose message is
  \<open>claude exited with code\<close>, the code, a colon and the trimmed diagnostic text. The exit
  code zero resolves \<open>ResponseFromClaudeCode\<close> with the text of the last assistant event
  of the whole output, not the longest one, and the session id; it resolves
  \<open>ResponseFromClaudeCodeStreaming\<close> with the session id alone, the increments emitted
  being those of the assistant texts of the complete lines. The session id is the caller's
  when given, the fresh UUID otherwise.
\<close>

theorem close_settles_pending_promise:
  "Outcome (run (ResponseFromClaudeCode parse (UsedSessionId Given uuid)) session_init
             (events @ [Close Code])) =
     settle (Outcome (run (ResponseFromClaudeCode parse (UsedSessionId Given uuid)) session_init events))
       (if Code \<noteq> Some 0
        then Rejected (Error (str ''claude exited with code '' @ Code_toString Code @ str '': ''
                               @ trim (concat (map Buffer_toString (stderr_chunks events)))))
        else Resolved
               \<lparr>Text = last ([] # AssistantTexts parse
                          (filter (\<lambda>Line. trim Line \<noteq> [])
                             (split_LF (concat (map Buffer_toString (stdout_chunks events)))))),
                SessionId = UsedSessionId Given uuid\<rparr>)
   \<and> Outcome (run (ResponseFromClaudeCodeStreaming parse (UsedSessionId Given uuid)) streaming_init
             (events @ [Close Code])) =
     settle (Outcome (run (ResponseFromClaudeCodeStreaming parse (UsedSessionId Given uuid)) streaming_init events))
       (if Code \<noteq> Some 0
        then Rejected (Error (str ''claude exited with code '' @ Code_toString Code @ str '': ''
                               @ trim (concat (map Buffer_toString (stderr_chunks events)))))
        else Resolved (UsedSessionId Given uuid))
   \<and> Tokens (Decoder (run (ResponseFromClaudeCodeStreaming parse (UsedSessionId Given uuid)) streaming_init
             (events @ [Close Code]))) =
     Tokens (foldl accept decoder_init
        (AssistantTexts parse (complete_lines (concat (map Buffer_toString (stdout_chunks events))))))
   \<and> UsedSessionId Given uuid = (if Given = JUndefined \<or> Given = JNull then JString uuid else Given)
   \<and> ((\<forall>e \<in> set events. is_data e) \<longrightarrow>
        Outcome (run (ResponseFromClaudeCode parse (UsedSessionId Given uuid)) session_init events) = Pending
      \<and> Outcome (run (ResponseFromClaudeCodeStreaming parse (UsedSessionId Given uuid)) streaming_init events)
          = Pending)"
  using close_settles_general[of parse "UsedSessionId Given uuid" events Code]
    pending_after_data[of events parse "UsedSessionId Given uuid"]
    UsedSessionId_cases[of Given uuid]
  by blast


lemma Hello_Hi_lines:
  "\<forall>L \<in> set [assistant_line (str ''Hello''), assistant_line (str ''Hi'')]. LF \<notin> set L \<and> trim L \<noteq> []"
proof -
  have "LF \<notin> set (str ''Hello'')" "LF \<notin> set (str ''Hi'')"
    by (simp_all add: str_def LF_def)
  then show ?thesis using assistant_line_is_line by simp
qed

lemma Hello_Hi_last_text:
  "last ([] # AssistantTexts Hello_Hi_parse
      (filter (\<lambda>Line. trim Line \<noteq> []) (split_LF (concat (map Buffer_toString Hello_Hi_chunks)))))
   = str ''Hi''"
  by (simp only: Hello_Hi_text nonblank_terminated_lines[OF Hello_Hi_lines] Hello_Hi_texts) simp

lemma Hello_Hi_decoded:
  "foldl accept decoder_init
     (AssistantTexts Hello_Hi_parse (complete_lines (concat (map Buffer_toString Hello_Hi_chunks))))
   = \<lparr>LineBuffer = [], LastText = str ''Hello'', Tokens = [str ''Hello'']\<rparr>"
  by (simp only: Hello_Hi_text complete_terminated_lines[OF Hello_Hi_lines] Hello_Hi_texts)
     (simp add: accept_def decoder_init_def str_def)

lemma Hello_Hi_recorded:
  "LastText (feed Hello_Hi_parse decoder_init Hello_Hi_chunks) = str ''Hello''"
  by (simp add: feed_init_accept Hello_Hi_decoded)

text \<open>
  C8 as stated fails. For the output of the assistant events \<open>Hello\<close> and then \<open>Hi\<close> and
  the exit code zero, \<open>ResponseFromClaudeCode\<close> resolves with \<open>Hi\<close>, while the text the
  streaming decoder records for that output is \<open>Hello\<close>. And when the timer expires
  before the process closes with the code 143, the error is the timeout's; it carries
  neither the code nor the diagnostic text \<open>boom\<close>.
\<close>

theorem close_outcome_is_not_the_decoder_text:
  "Outcome (run (ResponseFromClaudeCode Hello_Hi_parse (JString (str ''id''))) session_init
      (map StdoutData Hello_Hi_chunks @ [Close (Some 0)]))
     = Resolved \<lparr>Text = str ''Hi'', SessionId = JString (str ''id'')\<rparr>
   \<and> LastText (feed Hello_Hi_parse decoder_init Hello_Hi_chunks) = str ''Hello''
   \<and> str ''Hi'' \<noteq> str ''Hello''
   \<and> Outcome (run (ResponseFromClaudeCode Hello_Hi_parse (JString (str ''id''))) session_init
        [StderrData (bytes ''boom''), TimerExpired, Close (Some 143)])
     = Rejected (Error (str ''claude CLI timed out after 120 s''))"
proof -
  let ?events = "map StdoutData Hello_Hi_chunks"
  have d: "\<forall>e \<in> set ?events. is_data e" by auto
  have c: "stdout_chunks ?events = Hello_Hi_chunks"
    by (simp add: Hello_Hi_chunks_def)
  have p: "Outcome (run (ResponseFromClaudeCode Hello_Hi_parse (JString (str ''id''))) session_init ?events)
      = Pending"
    using pending_after_data[OF d, of Hello_Hi_parse "JString (str ''id'')"] by blast
  have "Outcome (run (ResponseFromClaudeCode Hello_Hi_parse (JString (str ''id''))) session_init
      (?events @ [Close (Some 0)]))
     = settle Pending (Resolved
         \<lparr>Text = last ([] # AssistantTexts Hello_Hi_parse
                          (filter (\<lambda>Line. trim Line \<noteq> [])
                             (split_LF (concat (map Buffer_toString (stdout_chunks ?events)))))),
          SessionId = JString (str ''id'')\<rparr>)"
    using close_settles_general[of Hello_Hi_parse "JString (str ''id'')" ?events "Some 0"]
    by (simp only: p) simp
  then have 1: "Outcome (run (ResponseFromClaudeCode Hello_Hi_parse (JString (str ''id''))) session_init
      (?events @ [Close (Some 0)]))
     = Resolved \<lparr>Text = str ''Hi'', SessionId = JString (str ''id'')\<rparr>"
    by (simp only: c Hello_Hi_last_text) simp
  have 2: "str ''Hi'' \<noteq> str ''Hello''" by (simp add: str_def)
  have 3: "Outcome (run (ResponseFromClaudeCode Hello_Hi_parse (JString (str ''id''))) session_init
        [StderrData (bytes ''boom''), TimerExpired, Close (Some 143)])
     = Rejected (Error (str ''claude CLI timed out after 120 s''))"
    by (simp add: run_def session_init_def onTimer_def logStdErr_def clearTimeout_def
          timeout_error_def Let_def)
  show ?thesis using 1 2 3 Hello_Hi_recorded by simp
qed

text \<open>
  The amended C8 on a run with the output \<open>Hello\<close>, \<open>Hi\<close> and the diagnostic text
  \<open>boom\<close>, closed with the codes 1 and 0.
\<close>

theorem close_settles_pending_promise_witness:
  "is_data (StdoutData (assistant_line_head @ bytes ''Hello'' @ assistant_line_tail))
   \<and> is_data (StderrData (bytes ''boom''))
   \<and> is_data (StdoutData (assistant_line_head @ bytes ''Hi'' @ assistant_line_tail))
   \<and> Outcome (run (ResponseFromClaudeCode Hello_Hi_parse
                     (UsedSessionId JUndefined (str ''0f8fad5b-d9cb-469f-a165-70867728950e'')))
        session_init
        [StdoutData (assistant_line_head @ bytes ''Hello'' @ assistant_line_tail),
         StderrData (bytes ''boom''),
         StdoutData (assistant_line_head @ bytes ''Hi'' @ assistant_line_tail), Close (Some 1)])
       = Rejected (Error (str ''claude exited with code 1: boom''))
   \<and> Outcome (run (ResponseFromClaudeCode Hello_Hi_parse
                     (UsedSessionId JUndefined (str ''0f8fad5b-d9cb-469f-a165-70867728950e'')))
        session_init
        [StdoutData (assistant_line_head @ bytes ''Hello'' @ assistant_line_tail),
         StderrData (bytes ''boom''),
         StdoutData (assistant_line_head @ bytes ''Hi'' @ assistant_line_tail), Close (Some 0)])
       = Resolved \<lparr>Text = str ''Hi'', SessionId = JString (str ''0f8fad5b-d9cb-469f-a165-70867728950e'')\<rparr>
   \<and> Outcome (run (ResponseFromClaudeCodeStreaming Hello_Hi_parse
                     (UsedSessionId JUndefined (str ''0f8fad5b-d9cb-469f-a165-70867728950e'')))
        streaming_init
        [StdoutData (assistant_line_head @ bytes ''Hello'' @ assistant_line_tail),
         StderrData (bytes ''boom''),
         StdoutData (assistant_line_head @ bytes ''Hi'' @ assistant_line_tail), Close (Some 0)])
       = Resolved (JString (str ''0f8fad5b-d9cb-469f-a165-70867728950e''))
   \<and> Tokens (Decoder (run (ResponseFromClaudeCodeStreaming Hello_Hi_parse
                     (UsedSessionId JUndefined (str ''0f8fad5b-d9cb-469f-a165-70867728950e'')))
        streaming_init
        [StdoutData (assistant_line_head @ bytes ''Hello'' @ assistant_line_tail),
         StderrData (bytes ''boom''),
         StdoutData (assistant_line_head @ bytes ''Hi'' @ assistant_line_tail), Close (Some 0)]))
       = [str ''Hello'']"
proof -
  let ?events = "[StdoutData (assistant_line_head @ bytes ''Hello'' @ assistant_line_tail),
         StderrData (bytes ''boom''),
         StdoutData (assistant_line_head @ bytes ''Hi'' @ assistant_line_tail)]"
  let ?uuid = "str ''0f8fad5b-d9cb-469f-a165-70867728950e''"
  let ?U = "UsedSessionId JUndefined ?uuid"
  have d: "\<forall>e \<in> set ?events. is_data e" by simp
  have c: "stdout_chunks ?events = Hello_Hi_chunks"
    by (simp add: Hello_Hi_chunks_def)
  have err: "trim (concat (map Buffer_toString (stderr_chunks ?events))) = str ''boom''"
    by (simp add: Buffer_toString_def UTF16Encode_def bytes_def str_def trim_def isWhiteSpace_def)
  have c1: "str ''claude exited with code '' @ Code_toString (Some 1) @ str '': '' @ str ''boom''
      = str ''claude exited with code 1: boom''"
    by (simp add: Code_toString_def str_def)
  note th1 = close_settles_pending_promise[of Hello_Hi_parse JUndefined ?uuid ?events "Some 1"]
  note th0 = close_settles_pending_promise[of Hello_Hi_parse JUndefined ?uuid ?events "Some 0"]
  have p: "Outcome (run (ResponseFromClaudeCode Hello_Hi_parse ?U) session_init ?events) = Pending"
    "Outcome (run (ResponseFromClaudeCodeStreaming Hello_Hi_parse ?U) streaming_init ?events) = Pending"
    using th0 d by blast+
  have u: "?U = JString ?uuid"
    using th0 by simp
  have a1: "Outcome (run (ResponseFromClaudeCode Hello_Hi_parse ?U) session_init (?events @ [Close (Some 1)])) =
      settle (Outcome (run (ResponseFromClaudeCode Hello_Hi_parse ?U) session_init ?events))
       (if Some 1 \<noteq> Some (0::int)
        then Rejected (Error (str ''claude exited with code '' @ Code_toString (Some 1) @ str '': ''
                               @ trim (concat (map Buffer_toString (stderr_chunks ?events)))))
        else Resolved
               \<lparr>Text = last ([] # AssistantTexts Hello_Hi_parse
                          (filter (\<lambda>Line. trim Line \<noteq> [])
                             (split_LF (concat (map Buffer_toString (stdout_chunks ?events)))))),
                SessionId = ?U\<rparr>)"
    using th1 by blast
  have a0: "Outcome (run (ResponseFromClaudeCode Hello_Hi_parse ?U) session_init (?events @ [Close (Some 0)])) =
      settle (Outcome (run (ResponseFromClaudeCode Hello_Hi_parse ?U) session_init ?events))
       (if Some 0 \<noteq> Some (0::int)
        then Rejected (Error (str ''claude exited with code '' @ Code_toString (Some 0) @ str '': ''
                               @ trim (concat (map Buffer_toString (stderr_chunks ?events)))))
        else Resolved
               \<lparr>Text = last ([] # AssistantTexts Hello_Hi_parse
                          (filter (\<lambda>Line. trim Line \<noteq> [])
                             (split_LF (concat (map Buffer_toString (stdout_chunks ?events)))))),
                SessionId = ?U\<rparr>)"
    using th0 by blast
  have b0: "Outcome (run (ResponseFromClaudeCodeStreaming Hello_Hi_parse ?U) streaming_init
        (?events @ [Close (Some 0)])) =
      settle (Outcome (run (ResponseFromClaudeCodeStreaming Hello_Hi_parse ?U) streaming_init ?events))
       (if Some 0 \<noteq> Some (0::int)
        then Rejected (Error (str ''claude exited with code '' @ Code_toString (Some 0) @ str '': ''
                               @ trim (concat (map Buffer_toString (stderr_chunks ?events)))))
        else Resolved ?U)"
    using th0 by blast
  have t0: "Tokens (Decoder (run (ResponseFromClaudeCodeStreaming Hello_Hi_parse ?U) streaming_init
        (?events @ [Close (Some 0)]))) =
      Tokens (foldl accept decoder_init
        (AssistantTexts Hello_Hi_parse (complete_lines (concat (map Buffer_toString (stdout_chunks ?events))))))"
    using th0 by blast
  have 1: "Outcome (run (ResponseFromClaudeCode Hello_Hi_parse ?U) session_init (?events @ [Close (Some 1)]))
      = Rejected (Error (str ''claude exited with code 1: boom''))"
    by (simp only: a1 p err c1) simp
  have 2: "Outcome (run (ResponseFromClaudeCode Hello_Hi_parse ?U) session_init (?events @ [Close (Some 0)]))
      = Resolved \<lparr>Text = str ''Hi'', SessionId = JString ?uuid\<rparr>"
    by (simp only: a0 p c Hello_Hi_last_text) (simp add: u)
  have 3: "Outcome (run (ResponseFromClaudeCodeStreaming Hello_Hi_parse ?U) streaming_init
        (?events @ [Close (Some 0)])) = Resolved (JString ?uuid)"
    by (simp only: b0 p) (simp add: u)
  have 4: "Tokens (Decoder (run (ResponseFromClaudeCodeStreaming Hello_Hi_parse ?U) streaming_init
        (?events @ [Close (Some 0)]))) = [str ''Hello'']"
    by (simp only: t0 c Hello_Hi_decoded) simp
  show ?thesis
    using 1 2 3 4 by simp
qed

lemma settle_Rejected: "settle (Rejected r) outcome = Rejected r"
  by simp

lemma session_after_expiry:
  "Timer st = None \<Longrightarrow> Outcome st = Rejected r \<Longrightarrow>
   Timer (ResponseFromClaudeCode parse Used st e) = None
   \<and> Outcome (ResponseFromClaudeCode parse Used st e) = Rejected r
   \<and> Signals (ResponseFromClaudeCode parse Used st e) = Signals st"
  by (cases e) (simp_all add: onTimer_def logStdErr_def clearTimeout_def onError_def Let_def)

lemma streaming_after_expiry:
  "Timer st = None \<Longrightarrow> Outcome st = Rejected r \<Longrightarrow>
   Timer (ResponseFromClaudeCodeStreaming parse Used st e) = None
   \<and> Outcome (ResponseFromClaudeCodeStreaming parse Used st e) = Rejected r
   \<and> Signals (ResponseFromClaudeCodeStreaming parse Used st e) = Signals st"
  by (cases e) (simp_all add: onTimer_def logStdErr_def clearTimeout_def onError_def Let_def)

lemma run_session_after_expiry:
  "Timer st = None \<Longrightarrow> Outcome st = Rejected r \<Longrightarrow>
   Outcome (run (ResponseFromClaudeCode parse Used) st events) = Rejected r
   \<and> Signals (run (ResponseFromClaudeCode parse Used) st events) = Signals st"
proof (induction events arbitrary: st)
  case Nil
  then show ?case by (simp add: run_def)
next
  case (Cons e es)
  note s = session_after_expiry[OF Cons.prems, of parse Used e]
  have "run (ResponseFromClaudeCode parse Used) st (e # es) =
      run (ResponseFromClaudeCode parse Used) (ResponseFromClaudeCode parse Used st e) es"
    by (simp add: run_def)
  then show ?case using Cons.IH[of "ResponseFromClaudeCode parse Used st e"] s by simp
qed

lemma run_streaming_after_expiry:
  "Timer st = None \<Longrightarrow> Outcome st = Rejected r \<Longrightarrow>
   Outcome (run (ResponseFromClaudeCodeStreaming parse Used) st events) = Rejected r
   \<and> Signals (run (ResponseFromClaudeCodeStreaming parse Used) st events) = Signals st"
proof (induction events arbitrary: st)
  case Nil
  then show ?case by (simp add: run_def)
next
  case (Cons e es)
  note s = streaming_after_expiry[OF Cons.prems, of parse Used e]
  have "run (ResponseFromClaudeCodeStreaming parse Used) st (e # es) =
      run (ResponseFromClaudeCodeStreaming parse Used) (ResponseFromClaudeCodeStreaming parse Used st e) es"
    by (simp add: run_def)
  then show ?case using Cons.IH[of "ResponseFromClaudeCodeStreaming parse Used st e"] s by simp
qed

lemma foldl_accept_Tokens_prefix: "prefix (Tokens st) (Tokens (foldl accept st Ts))"
proof (induction Ts arbitrary: st)
  case Nil
  then show ?case by simp
next
  case (Cons T Ts)
  have "prefix (Tokens st) (Tokens (accept st T))" by (simp add: accept_def)
  then show ?case using Cons.IH[of "accept st T"] by (auto intro: prefix_order.trans)
qed

lemma onData_Tokens_prefix: "prefix (Tokens st) (Tokens (onData parse st Chunk))"
  by (simp add: onData_lines foldl_onLine_texts foldl_accept_Tokens_prefix)

lemma streaming_Tokens_prefix:
  "prefix (Tokens (Decoder st)) (Tokens (Decoder (ResponseFromClaudeCodeStreaming parse Used st e)))"
  by (cases e) (simp_all add: onData_Tokens_prefix onTimer_def logStdErr_def clearTimeout_def onError_def Let_def
        split: option.splits)

lemma run_streaming_Tokens_prefix:
  "prefix (Tokens (Decoder st)) (Tokens (Decoder (run (ResponseFromClaudeCodeStreaming parse Used) st events)))"
proof (induction events arbitrary: st)
  case Nil
  then show ?case by (simp add: run_def)
next
  case (Cons e es)
  have "run (ResponseFromClaudeCodeStreaming parse Used) st (e # es) =
      run (ResponseFromClaudeCodeStreaming parse Used) (ResponseFromClaudeCodeStreaming parse Used st e) es"
    by (simp add: run_def)
  then show ?case
    using Cons.IH[of "ResponseFromClaudeCodeStreaming parse Used st e"]
      streaming_Tokens_prefix[of st parse Used e]
    by (auto intro: prefix_order.trans)
qed

text \<open>
  C9. Both functions arm one timer, with a delay of 120 000 ms. In a run in which the
  timer expires first, after any chunks of output and diagnostics and before the \<open>close\<close>
  or \<open>error\<close> event, SIGTERM is sent to the process, once, and the promise is rejected
  with the error \<open>claude CLI timed out after 120 s\<close>; whatever is delivered afterwards
  changes neither. The increments the streaming decoder emitted before the expiry remain
  the first increments of the run.
\<close>

theorem timeout_kills_and_rejects:
  "(\<forall>e \<in> set before. is_data e) \<longrightarrow>
     Timer session_init = Some 120000 \<and> Timer streaming_init = Some 120000
   \<and> Signals (run (ResponseFromClaudeCode parse Used) session_init (before @ TimerExpired # after))
       = [SIGTERM]
   \<and> Outcome (run (ResponseFromClaudeCode parse Used) session_init (before @ TimerExpired # after))
       = Rejected (Error (str ''claude CLI timed out after 120 s''))
   \<and> Signals (run (ResponseFromClaudeCodeStreaming parse Used) streaming_init (before @ TimerExpired # after))
       = [SIGTERM]
   \<and> Outcome (run (ResponseFromClaudeCodeStreaming parse Used) streaming_init (before @ TimerExpired # after))
       = Rejected (Error (str ''claude CLI timed out after 120 s''))
   \<and> prefix (Tokens (feed parse decoder_init (stdout_chunks before)))
        (Tokens (Decoder (run (ResponseFromClaudeCodeStreaming parse Used) streaming_init
                           (before @ TimerExpired # after))))"
proof
  assume d: "\<forall>e \<in> set before. is_data e"
  let ?H = "ResponseFromClaudeCode parse Used" and ?S = "ResponseFromClaudeCodeStreaming parse Used"
  let ?a = "ResponseFromClaudeCode parse Used (run ?H session_init before) TimerExpired"
  let ?b = "ResponseFromClaudeCodeStreaming parse Used (run ?S streaming_init before) TimerExpired"
  have ra: "run ?H session_init (before @ TimerExpired # after) = run ?H ?a after"
    by (simp add: run_def)
  have rb: "run ?S streaming_init (before @ TimerExpired # after) = run ?S ?b after"
    by (simp add: run_def)
  have a: "Timer ?a = None" "Outcome ?a = Rejected timeout_error" "Signals ?a = [SIGTERM]"
    by (simp_all add: run_data_session[OF d] session_init_def onTimer_def)
  have b: "Timer ?b = None" "Outcome ?b = Rejected timeout_error" "Signals ?b = [SIGTERM]"
    "Decoder ?b = feed parse decoder_init (stdout_chunks before)"
    by (simp_all add: run_data_streaming[OF d] streaming_init_def onTimer_def)
  have t: "prefix (Tokens (feed parse decoder_init (stdout_chunks before)))
        (Tokens (Decoder (run ?S streaming_init (before @ TimerExpired # after))))"
    using run_streaming_Tokens_prefix[of ?b parse Used after] by (simp only: rb b(4))
  have i: "Timer session_init = Some 120000" "Timer streaming_init = Some 120000"
    by (simp_all add: session_init_def streaming_init_def)
  show "Timer session_init = Some 120000 \<and> Timer streaming_init = Some 120000
   \<and> Signals (run ?H session_init (before @ TimerExpired # after)) = [SIGTERM]
   \<and> Outcome (run ?H session_init (before @ TimerExpired # after))
       = Rejected (Error (str ''claude CLI timed out after 120 s''))
   \<and> Signals (run ?S streaming_init (before @ TimerExpired # after)) = [SIGTERM]
   \<and> Outcome (run ?S streaming_init (before @ TimerExpired # after))
       = Rejected (Error (str ''claude CLI timed out after 120 s''))
   \<and> prefix (Tokens (feed parse decoder_init (stdout_chunks before)))
        (Tokens (Decoder (run ?S streaming_init (before @ TimerExpired # after))))"
    using run_session_after_expiry[OF a(1,2), of parse Used after]
      run_streaming_after_expiry[OF b(1,2), of parse Used after] a(3) b(3) t i
    by (simp add: ra rb timeout_error_def)
qed


theorem timeout_kills_and_rejects_witness:
  "is_data (StdoutData (assistant_line_head @ bytes ''Hel'' @ assistant_line_tail))
   \<and> Tokens (feed Hel_Hello_parse decoder_init
        (stdout_chunks [StdoutData (assistant_line_head @ bytes ''Hel'' @ assistant_line_tail)]))
       = [str ''Hel'']
   \<and> Signals (run (ResponseFromClaudeCodeStreaming Hel_Hello_parse (JString (str ''id''))) streaming_init
        [StdoutData (assistant_line_head @ bytes ''Hel'' @ assistant_line_tail), TimerExpired, Close None])
       = [SIGTERM]
   \<and> Outcome (run (ResponseFromClaudeCodeStreaming Hel_Hello_parse (JString (str ''id''))) streaming_init
        [StdoutData (assistant_line_head @ bytes ''Hel'' @ assistant_line_tail), TimerExpired, Close None])
       = Rejected (Error (str ''claude CLI timed out after 120 s''))
   \<and> Outcome (run (ResponseFromClaudeCode Hel_Hello_parse (JString (str ''id''))) session_init
        [StdoutData (assistant_line_head @ bytes ''Hel'' @ assistant_line_tail), TimerExpired, Close None])
       = Rejected (Error (str ''claude CLI timed out after 120 s''))
   \<and> prefix [str ''Hel'']
        (Tokens (Decoder (run (ResponseFromClaudeCodeStreaming Hel_Hello_parse (JString (str ''id'')))
           streaming_init
           [StdoutData (assistant_line_head @ bytes ''Hel'' @ assistant_line_tail), TimerExpired, Close None])))"
proof -
  let ?C = "assistant_line_head @ bytes ''Hel'' @ assistant_line_tail"
  have d: "\<forall>e \<in> set [StdoutData ?C]. is_data e" by simp
  have p: "Hel_Hello_parse (assistant_line (str ''Hel'')) = Some (assistant_event (str ''Hel''))"
    by (simp add: Hel_Hello_parse_def)
  have c: "concat (map Buffer_toString [?C]) = assistant_line (str ''Hel'') @ [LF]"
    by (simp add: assistant_line_head_def assistant_line_tail_def Buffer_toString_def
          UTF16Encode_def bytes_def assistant_line_def str_def LF_def)
  have n: "LF \<notin> set (str ''Hel'')" and e: "str ''Hel'' \<noteq> []"
    by (simp_all add: str_def LF_def)
  have f: "feed Hel_Hello_parse decoder_init [?C] =
      \<lparr>LineBuffer = [], LastText = str ''Hel'', Tokens = [str ''Hel'']\<rparr>"
    using feed_one_assistant_line[of Hel_Hello_parse "str ''Hel''" "[?C]", OF p n e c] .
  then have k: "Tokens (feed Hel_Hello_parse decoder_init (stdout_chunks [StdoutData ?C])) = [str ''Hel'']"
    by simp
  note th = timeout_kills_and_rejects[of "[StdoutData ?C]" Hel_Hello_parse "JString (str ''id'')" "[Close None]"]
  show ?thesis
    using th d k by simp
qed

end
